theory Spec2Isabelle
  imports Complex_Main "HOL-Library.Sublist"
begin

section \<open>Test data generation engine of \<open>test-data-generator.tsx\<close>\<close>

text \<open>
  A shallow embedding of the engine functions of \<open>src/test-data-generator.tsx\<close>:
  \<open>shouldAutoEnableNegativeTests\<close>, \<open>parseSidFile\<close> (the field extraction),
  \<open>generatePasswordPattern\<close>, \<open>generatePhonePattern\<close>, \<open>generateTestData\<close>,
  \<open>getNegativeTestTypes\<close>, \<open>generateNegativeValue\<close>, \<open>generateFieldValue\<close>,
  \<open>generateRandomString\<close>, \<open>generateFromPattern\<close> and \<open>getLookupValues\<close>.

  Conventions of the embedding.
  \<^item> A JavaScript string is a \<open>string\<close>; its characters stand for code units in the range
    0..255. Numbers read from the configuration are integers (\<open>int\<close>): the user interface
    produces them with \<open>Number.parseInt\<close>.
  \<^item> An optional property is an \<open>option\<close>; \<open>None\<close> is \<open>undefined\<close>.
  \<^item> \<open>Math.random()\<close> is an explicit source \<open>random p :: nat \<Rightarrow> rat\<close>: the \<open>k\<close>-th call of a
    run returns \<open>random p k\<close>, and the number of calls made so far is threaded through
    every function that draws. JavaScript guarantees \<open>0 \<le> r < 1\<close> for each draw; theorems
    that need it assume it (\<open>unitRandom\<close>). Products with a draw are exact, not rounded.
  \<^item> A thrown exception is a value \<open>Inl e\<close> of the result type.
  \<^item> A generated record is a finite map from property names to values. The property name
    \<open>__proto__\<close>, which a JavaScript object does not store like the others, is not told
    apart: field names are taken to differ from it.
  \<^item> A number is an integer (\<open>JInt\<close>) or the one fraction the engine writes, \<open>123.456\<close>
    (\<open>JFrac\<close>). An integer literal and the sums of \<open>generateNegativeValue\<close> are rounded
    to the nearest double (\<open>toDouble\<close>), which changes integers from \<open>2^53\<close> on only.
\<close>

subsection \<open>JavaScript values and string primitives\<close>

datatype jsval = JUndefined | JNull | JBool bool | JInt int | JFrac rat | JStr string

datatype error = TypeError | RangeError

text \<open>
  The nearest double of an integer, ties to the even significand: an integer below \<open>2^53\<close>
  in magnitude is a double; a larger one keeps its 53 leading bits, rounded. The overflow
  to \<open>Infinity\<close>, beyond \<open>1.8e308\<close>, is left out.
\<close>

function halvings :: "nat \<Rightarrow> nat" where
  "halvings m = (if m < 9007199254740992 then 0 else Suc (halvings (m div 2)))"
  by pat_completeness auto
termination
  by (relation "measure (\<lambda>m. m)") auto

declare halvings.simps [simp del]

definition roundNat :: "nat \<Rightarrow> nat" where
  "roundNat m =
     (let e = halvings m; q = m div 2 ^ e; r = m mod 2 ^ e
      in if 2 * r > 2 ^ e \<or> (2 * r = 2 ^ e \<and> odd q) then (q + 1) * 2 ^ e else q * 2 ^ e)"

definition toDouble :: "int \<Rightarrow> int" where
  "toDouble n = (if n < 0 then - int (roundNat (nat (- n))) else int (roundNat (nat n)))"

text \<open>\<open>x || d\<close> on an optional number: \<open>undefined\<close> and \<open>0\<close> are both falsy.\<close>

definition numOr :: "int option \<Rightarrow> int \<Rightarrow> int" where
  "numOr x d = (case x of None \<Rightarrow> d | Some v \<Rightarrow> if v = 0 then d else v)"

text \<open>\<open>x || d\<close> on an optional string: \<open>undefined\<close> and \<open>""\<close> are both falsy.\<close>

definition strOr :: "string option \<Rightarrow> string \<Rightarrow> string" where
  "strOr x d = (case x of None \<Rightarrow> d | Some v \<Rightarrow> if v = [] then d else v)"

text \<open>Truthiness of an optional number and of an optional string.\<close>

definition truthyNum :: "int option \<Rightarrow> bool" where
  "truthyNum x = (case x of None \<Rightarrow> False | Some v \<Rightarrow> v \<noteq> 0)"

definition truthyStr :: "string option \<Rightarrow> bool" where
  "truthyStr x = (case x of None \<Rightarrow> False | Some v \<Rightarrow> v \<noteq> [])"

text \<open>The white space and line terminator code units below 256, as \<open>trim\<close> and \<open>\s\<close> see them.\<close>

definition isWhiteSpace :: "char \<Rightarrow> bool" where
  "isWhiteSpace c = ((of_char c :: nat) \<in> {9, 10, 11, 12, 13, 32, 160})"

definition trim :: "string \<Rightarrow> string" where
  "trim s = rev (dropWhile isWhiteSpace (rev (dropWhile isWhiteSpace s)))"

definition upperChars :: string where
  "upperChars = ''ABCDEFGHIJKLMNOPQRSTUVWXYZ''"

definition lowerChars :: string where
  "lowerChars = ''abcdefghijklmnopqrstuvwxyz''"

definition digitChars :: string where
  "digitChars = ''0123456789''"

text \<open>The character classes \<open>[A-Z]\<close>, \<open>[a-z]\<close> and \<open>\d\<close>.\<close>

definition isUpper :: "char \<Rightarrow> bool" where
  "isUpper c = (c \<in> set upperChars)"

definition isLower :: "char \<Rightarrow> bool" where
  "isLower c = (c \<in> set lowerChars)"

definition isDigit :: "char \<Rightarrow> bool" where
  "isDigit c = (c \<in> set digitChars)"

text \<open>\<open>toLowerCase\<close> on code units below 256: the ASCII capitals, and the accented capitals
  \<open>0xC0..0xDE\<close> without the multiplication sign \<open>0xD7\<close>, move up by 32.\<close>

definition toLowerChar :: "char \<Rightarrow> char" where
  "toLowerChar c =
     (case map_of (zip upperChars lowerChars) c of
        Some d \<Rightarrow> d
      | None \<Rightarrow>
          if (192::nat) \<le> of_char c \<and> (of_char c :: nat) \<le> 222 \<and> (of_char c :: nat) \<noteq> 215
          then char_of (of_char c + (32::nat)) else c)"

definition toLowerCase :: "string \<Rightarrow> string" where
  "toLowerCase s = map toLowerChar s"

text \<open>\<open>Array.prototype.indexOf\<close>: the first index holding the element, or \<open>-1\<close>.\<close>

fun indexOf :: "'a list \<Rightarrow> 'a \<Rightarrow> int" where
  "indexOf [] x = - 1"
| "indexOf (y # ys) x =
     (if y = x then 0 else (let i = indexOf ys x in if i < 0 then - 1 else i + 1))"

text \<open>\<open>s.substring(0, m)\<close>: a negative end is taken as \<open>0\<close>.\<close>

definition substring0 :: "string \<Rightarrow> int \<Rightarrow> string" where
  "substring0 s m = take (nat m) s"

text \<open>\<open>"A".repeat(n)\<close> throws a \<open>RangeError\<close> on a negative count.\<close>

definition repeatA :: "int \<Rightarrow> error + string" where
  "repeatA n = (if n < 0 then Inl RangeError else Inr (replicate (nat n) CHR ''A''))"

subsection \<open>The field configuration model\<close>

datatype fieldType = TString | TNumber | TBoolean | TDate | TEmail | TPhone

datatype dataType = DStatic | DRange | DLookup | DMinmax | DPattern

record config =
  staticValue :: "string option"
  rangeMin :: "int option"
  rangeMax :: "int option"
  lookupValues :: "string list option"
  csvData :: "string list list option"
  csvColumn :: "string option"
  minLength :: "int option"
  maxLength :: "int option"
  pattern :: "string option"

record FieldConfig =
  id_field :: string
  name :: string
  type :: fieldType
  dataType :: dataType
  required :: bool
  maxFieldLength :: "int option"
  generateNegativeTests :: "bool option"
  config :: config

text \<open>\<open>config: {}\<close>, the configuration bag with nothing set.\<close>

definition emptyConfig :: config where
  "emptyConfig = \<lparr> staticValue = None, rangeMin = None, rangeMax = None, lookupValues = None,
     csvData = None, csvColumn = None, minLength = None, maxLength = None, pattern = None \<rparr>"

subsection \<open>Lookup value resolver\<close>

text \<open>\<open>row[columnIndex] || ""\<close>: a row too short for the column gives the empty string.\<close>

definition cell :: "string list \<Rightarrow> nat \<Rightarrow> string" where
  "cell row columnIndex = (if columnIndex < length row then row ! columnIndex else [])"

definition nonBlank :: "string \<Rightarrow> bool" where
  "nonBlank v = (length (trim v) > 0)"

text \<open>The last statement of \<open>getLookupValues\<close>: the manual values, blank entries dropped.\<close>

definition manualLookupValues :: "FieldConfig \<Rightarrow> string list" where
  "manualLookupValues field =
     filter nonBlank (case lookupValues (config field) of None \<Rightarrow> [] | Some vs \<Rightarrow> vs)"

text \<open>
  \<open>getLookupValues\<close>. The guard is \<open>csvData && csvColumn\<close>: an array is always truthy, a
  string only when non-empty. \<open>csvData[0].indexOf\<close> throws a \<open>TypeError\<close> on a grid with
  no row. When the column is not in the header row, control falls through to the manual
  values.
\<close>

definition getLookupValues :: "FieldConfig \<Rightarrow> error + string list" where
  "getLookupValues field =
     (case csvData (config field) of
        None \<Rightarrow> Inr (manualLookupValues field)
      | Some grid \<Rightarrow>
          if truthyStr (csvColumn (config field)) then
            (case grid of
               [] \<Rightarrow> Inl TypeError
             | header # dataRows \<Rightarrow>
                 (let columnIndex = indexOf header (the (csvColumn (config field)))
                  in if columnIndex \<ge> 0
                     then Inr (filter nonBlank (map (\<lambda>row. cell row (nat columnIndex)) dataRows))
                     else Inr (manualLookupValues field)))
          else Inr (manualLookupValues field))"

subsection \<open>Automatic eligibility and the negative test-case table\<close>

definition shouldAutoEnableNegativeTests :: "FieldConfig \<Rightarrow> bool" where
  "shouldAutoEnableNegativeTests field =
     (if required field then True
      else if truthyNum (maxFieldLength field) \<or> rangeMin (config field) \<noteq> None
              \<or> rangeMax (config field) \<noteq> None then True
      else if type field \<in> {TEmail, TPhone, TDate} then True
      else False)"

definition getNegativeTestTypes :: "FieldConfig \<Rightarrow> string list" where
  "getNegativeTestTypes field =
     (if required field then [''empty'', ''null''] else []) @
     (case type field of
        TString \<Rightarrow> [''too_long'', ''special_chars'', ''sql_injection''] @
                   (if truthyNum (maxFieldLength field) then [''exceed_length''] else [])
      | TEmail \<Rightarrow> [''invalid_format'', ''missing_at'', ''missing_domain'']
      | TPhone \<Rightarrow> [''invalid_format'', ''too_short'', ''too_long'', ''letters'']
      | TNumber \<Rightarrow> [''string_value'', ''negative'', ''decimal'', ''overflow''] @
                   (if rangeMin (config field) \<noteq> None then [''below_min''] else []) @
                   (if rangeMax (config field) \<noteq> None then [''above_max''] else [])
      | TDate \<Rightarrow> [''invalid_format'', ''future_date'', ''past_date'', ''invalid_day'']
      | TBoolean \<Rightarrow> [''string_value'', ''number_value''])"

definition specialChars :: string where
  "specialChars = ''!@#$%^&*()_+{}|:<>?[]'' @ [CHR 0x5C] @ '';'' @ [CHR 0x27, CHR 0x22] @ '',./''"

definition sqlInjection :: string where
  "sqlInjection = [CHR 0x27] @ ''; DROP TABLE users; --''"

definition generateNegativeValue :: "FieldConfig \<Rightarrow> string \<Rightarrow> error + jsval" where
  "generateNegativeValue field testType =
     (if testType = ''empty'' then Inr (JStr [])
      else if testType = ''null'' then Inr JNull
      else if testType = ''too_long'' then map_sum (\<lambda>e. e) JStr (repeatA 1000)
      else if testType = ''exceed_length''
        then map_sum (\<lambda>e. e) JStr (repeatA (numOr (maxFieldLength field) 50 + 10))
      else if testType = ''special_chars'' then Inr (JStr specialChars)
      else if testType = ''sql_injection'' then Inr (JStr sqlInjection)
      else if testType = ''invalid_format'' then
        (if type field = TEmail then Inr (JStr ''invalid-email-format'')
         else if type field = TPhone then Inr (JStr ''abc-def-ghij'')
         else if type field = TDate then Inr (JStr ''2024-13-45'')
         else Inr (JStr ''invalid_format''))
      else if testType = ''missing_at'' then Inr (JStr ''emailwithoutatsign.com'')
      else if testType = ''missing_domain'' then Inr (JStr ''email@'')
      else if testType = ''too_short'' then Inr (JStr ''123'')
      else if testType = ''letters'' then Inr (JStr ''abcdefghij'')
      else if testType = ''string_value'' then Inr (JStr ''not_a_number'')
      else if testType = ''negative'' then Inr (JInt (- 999999))
      else if testType = ''decimal'' then Inr (JFrac (123456 / 1000))
      else if testType = ''overflow'' then Inr (JInt (toDouble 999999999999999999999))
      else if testType = ''below_min''
        then Inr (JInt (toDouble (numOr (rangeMin (config field)) 0 - 1)))
      else if testType = ''above_max''
        then Inr (JInt (toDouble (numOr (rangeMax (config field)) 100 + 1)))
      else if testType = ''future_date'' then Inr (JStr ''2099-12-31'')
      else if testType = ''past_date'' then Inr (JStr ''1900-01-01'')
      else if testType = ''invalid_day'' then Inr (JStr ''2024-02-30'')
      else if testType = ''number_value'' then Inr (JInt 123)
      else Inr (JStr ''invalid_test_value''))"

subsection \<open>The platform: random draws, dates and number formatting\<close>

text \<open>
  What the engine takes from the JavaScript runtime. \<open>random p k\<close> is the result of the
  \<open>k\<close>-th call of \<open>Math.random()\<close>; \<open>isoDate p r\<close> is
  \<open>new Date(Date.now() - r * 365 * 24 * 60 * 60 * 1000).toISOString().split("T")[0]\<close>;
  \<open>toString36 p r\<close> is \<open>r.toString(36)\<close>. \<open>freshId p n\<close> is the identifier
  \<open>Date.now().toString() + Math.random()\<close> given to the \<open>n\<close>-th extracted field.
\<close>

record platform =
  random :: "nat \<Rightarrow> rat"
  isoDate :: "rat \<Rightarrow> string"
  toString36 :: "rat \<Rightarrow> string"
  freshId :: "nat \<Rightarrow> string"

definition unitRandom :: "platform \<Rightarrow> bool" where
  "unitRandom p = (\<forall>k. 0 \<le> random p k \<and> random p k < 1)"

text \<open>\<open>Math.floor(Math.random() * n)\<close>, on the \<open>k\<close>-th draw.\<close>

definition randomBelow :: "platform \<Rightarrow> nat \<Rightarrow> int \<Rightarrow> int" where
  "randomBelow p k n = \<lfloor>random p k * of_int n\<rfloor>"

text \<open>The decimal digits of a natural number, and \<open>String(n)\<close> for an integer.\<close>

fun showNat :: "nat \<Rightarrow> string" where
  "showNat n = (if n < 10 then [digitChars ! n] else showNat (n div 10) @ [digitChars ! (n mod 10)])"

declare showNat.simps [simp del]

definition showInt :: "int \<Rightarrow> string" where
  "showInt i = (if i < 0 then CHR ''-'' # showNat (nat (- i)) else showNat (nat i))"

text \<open>\<open>s.charAt(i)\<close>: the empty string out of range.\<close>

definition charAt :: "string \<Rightarrow> int \<Rightarrow> string" where
  "charAt s i = (if 0 \<le> i \<and> i < int (length s) then [s ! nat i] else [])"

text \<open>\<open>String.fromCharCode(n)\<close>, for a code below 256.\<close>

definition fromCharCode :: "int \<Rightarrow> string" where
  "fromCharCode n = [char_of n]"

text \<open>\<open>values[i]\<close>: \<open>undefined\<close> out of range.\<close>

definition elemAt :: "string list \<Rightarrow> int \<Rightarrow> jsval" where
  "elemAt vs i = (if 0 \<le> i \<and> i < int (length vs) then JStr (vs ! nat i) else JUndefined)"

subsection \<open>Value synthesis\<close>

definition alphanumerics :: string where
  "alphanumerics = upperChars @ lowerChars @ digitChars"

text \<open>The loop of \<open>generateRandomString\<close>: one draw per character, appended in order.\<close>

fun randomChars :: "platform \<Rightarrow> nat \<Rightarrow> nat \<Rightarrow> string \<times> nat" where
  "randomChars p 0 k = ([], k)"
| "randomChars p (Suc n) k =
     (let c = charAt alphanumerics (randomBelow p k (int (length alphanumerics)));
          (rest, k') = randomChars p n (Suc k)
      in (c @ rest, k'))"

text \<open>
  \<open>generateRandomString(length, type)\<close>. The random string is always built (a non-positive
  length runs the loop zero times); the switch on the type then decides what is returned.
\<close>

definition generateRandomString :: "platform \<Rightarrow> int \<Rightarrow> fieldType \<Rightarrow> nat \<Rightarrow> jsval \<times> nat" where
  "generateRandomString p len ty k =
     (let (result, k1) = randomChars p (nat len) k
      in case ty of
           TEmail \<Rightarrow> (JStr (toLowerCase result @ ''@example.com''), k1)
         | TPhone \<Rightarrow> (JStr (''+1'' @ showInt (randomBelow p k1 9000000000 + 1000000000)), Suc k1)
         | TNumber \<Rightarrow> (JInt (randomBelow p k1 1000), Suc k1)
         | TBoolean \<Rightarrow> (JBool (random p k1 > 1 / 2), Suc k1)
         | TDate \<Rightarrow> (JStr (isoDate p (random p k1)), Suc k1)
         | TString \<Rightarrow> (JStr result, k1))"

text \<open>
  \<open>s.replace(/pat/g, f)\<close> for a literal pattern: the matches are found from left to right
  without overlap, and the callback is run once per match, in that order.
\<close>

function replaceAll :: "string \<Rightarrow> (nat \<Rightarrow> string \<times> nat) \<Rightarrow> string \<Rightarrow> nat \<Rightarrow> string \<times> nat" where
  "replaceAll pat f [] k = ([], k)"
| "replaceAll pat f (c # cs) k =
     (if pat \<noteq> [] \<and> take (length pat) (c # cs) = pat
      then (let (r, k1) = f k;
                (rest, k2) = replaceAll pat f (drop (length pat) (c # cs)) k1
            in (r @ rest, k2))
      else (let (rest, k1) = replaceAll pat f cs k in (c # rest, k1)))"
  by pat_completeness auto
termination
  by (relation "measure (\<lambda>(pat, f, s, k). length s)") (auto simp: neq_Nil_conv)

definition upperDraw :: "platform \<Rightarrow> nat \<Rightarrow> string \<times> nat" where
  "upperDraw p k = (fromCharCode (65 + randomBelow p k 26), Suc k)"

definition lowerDraw :: "platform \<Rightarrow> nat \<Rightarrow> string \<times> nat" where
  "lowerDraw p k = (fromCharCode (97 + randomBelow p k 26), Suc k)"

definition digitDraw :: "platform \<Rightarrow> nat \<Rightarrow> string \<times> nat" where
  "digitDraw p k = (showInt (randomBelow p k 10), Suc k)"

text \<open>\<open>Math.random().toString(36).substring(2, 8)\<close>.\<close>

definition tokenDraw :: "platform \<Rightarrow> nat \<Rightarrow> string \<times> nat" where
  "tokenDraw p k = (take 6 (drop 2 (toString36 p (random p k))), Suc k)"

definition generateFromPattern :: "platform \<Rightarrow> string \<Rightarrow> fieldType \<Rightarrow> nat \<Rightarrow> string \<times> nat" where
  "generateFromPattern p pat fieldType k =
     (let (r1, k1) = replaceAll ''{UPPER}'' (upperDraw p) pat k;
          (r2, k2) = replaceAll ''{lower}'' (lowerDraw p) r1 k1;
          (r3, k3) = replaceAll ''{digit}'' (digitDraw p) r2 k2;
          (r4, k4) = replaceAll ''{random}'' (tokenDraw p) r3 k3
      in if fieldType = TPhone then replaceAll ''{digit}'' (digitDraw p) r4 k4 else (r4, k4))"

text \<open>The \<open>range\<close> branch of \<open>generateFieldValue\<close>.\<close>

definition rangeValue :: "platform \<Rightarrow> FieldConfig \<Rightarrow> nat \<Rightarrow> jsval \<times> nat" where
  "rangeValue p field k =
     (let min' = numOr (rangeMin (config field)) 0;
          max' = numOr (rangeMax (config field)) 100
      in (JInt (randomBelow p k (max' - min' + 1) + min'), Suc k))"

text \<open>The \<open>minmax\<close> branch of \<open>generateFieldValue\<close>, before the length limit is applied.\<close>

definition minmaxValue :: "platform \<Rightarrow> FieldConfig \<Rightarrow> nat \<Rightarrow> jsval \<times> nat" where
  "minmaxValue p field k =
     (let minLen = numOr (minLength (config field)) 1;
          maxLen = numOr (maxLength (config field)) 10;
          len = randomBelow p k (maxLen - minLen + 1) + minLen
      in generateRandomString p len (type field) (Suc k))"

text \<open>The closing step of \<open>generateFieldValue\<close>: the field length limit, on strings only.\<close>

definition applyFieldLength :: "FieldConfig \<Rightarrow> jsval \<Rightarrow> jsval" where
  "applyFieldLength field v =
     (case v of
        JStr s \<Rightarrow> if truthyNum (maxFieldLength field)
                  then JStr (substring0 s (the (maxFieldLength field))) else v
      | _ \<Rightarrow> v)"

text \<open>
  \<open>generateFieldValue(field)\<close>; the parameter \<open>isNegative\<close> of the source is never read.
  An unnamed field and a lookup field without values return \<open>""\<close> at once. The \<open>default\<close>
  branch of the switch is not reachable from a value of type \<open>dataType\<close>.
\<close>

definition generateFieldValue :: "platform \<Rightarrow> FieldConfig \<Rightarrow> nat \<Rightarrow> error + (jsval \<times> nat)" where
  "generateFieldValue p field k =
     (if name field = [] then Inr (JStr [], k)
      else case dataType field of
          DStatic \<Rightarrow>
            Inr (applyFieldLength field (JStr (strOr (staticValue (config field)) [])), k)
        | DRange \<Rightarrow>
            (let (v, k1) = rangeValue p field k in Inr (applyFieldLength field v, k1))
        | DLookup \<Rightarrow>
            (case getLookupValues field of
               Inl e \<Rightarrow> Inl e
             | Inr values \<Rightarrow>
                 if length values = 0 then Inr (JStr [], k)
                 else Inr (applyFieldLength field
                             (elemAt values (randomBelow p k (int (length values)))), Suc k))
        | DMinmax \<Rightarrow>
            (let (v, k1) = minmaxValue p field k in Inr (applyFieldLength field v, k1))
        | DPattern \<Rightarrow>
            (let (s, k1) = generateFromPattern p (strOr (pattern (config field)) []) (type field) k
             in Inr (applyFieldLength field (JStr s), k1)))"

subsection \<open>Record set builder\<close>

text \<open>
  A generated record is a JavaScript object: a finite map from property names to values.
  An assignment \<open>record[key] = v\<close> adds the key or overwrites it.
\<close>

type_synonym GeneratedRecord = "string \<rightharpoonup> jsval"

text \<open>
  \<open>xs.forEach\<close> (and a counting \<open>for\<close> loop, over its indices) whose body updates an
  accumulator, may draw random numbers and may throw: the exception ends the loop.
\<close>

fun forEach :: "('a \<Rightarrow> 'r \<Rightarrow> nat \<Rightarrow> error + ('r \<times> nat)) \<Rightarrow> 'a list \<Rightarrow> 'r \<Rightarrow> nat \<Rightarrow> error + ('r \<times> nat)" where
  "forEach body [] r k = Inr (r, k)"
| "forEach body (x # xs) r k =
     (case body x r k of Inl e \<Rightarrow> Inl e | Inr (r', k') \<Rightarrow> forEach body xs r' k')"

text \<open>\<open>record[field.name] = generateFieldValue(field, false)\<close>.\<close>

definition assignFieldValue :: "platform \<Rightarrow> FieldConfig \<Rightarrow> GeneratedRecord \<Rightarrow> nat \<Rightarrow> error + (GeneratedRecord \<times> nat)" where
  "assignFieldValue p field record k =
     (case generateFieldValue p field k of
        Inl e \<Rightarrow> Inl e
      | Inr (v, k') \<Rightarrow> Inr (record(name field \<mapsto> v), k'))"

text \<open>The body of \<open>fields.forEach\<close> in the lookup-driven loop, for record number \<open>i\<close>.\<close>

definition lookupFieldStep :: "platform \<Rightarrow> nat \<Rightarrow> FieldConfig \<Rightarrow> GeneratedRecord \<Rightarrow> nat \<Rightarrow> error + (GeneratedRecord \<times> nat)" where
  "lookupFieldStep p i field record k =
     (if name field = [] then Inr (record, k)
      else if dataType field = DLookup then
        (case getLookupValues field of
           Inl e \<Rightarrow> Inl e
         | Inr lookupVals \<Rightarrow>
             if length lookupVals > 0
             then Inr (record(name field \<mapsto> JStr (lookupVals ! (i mod length lookupVals))), k)
             else Inr (record(name field \<mapsto> JStr []), k))
      else assignFieldValue p field record k)"

text \<open>The body of \<open>fields.forEach\<close> in the standard loop.\<close>

definition standardFieldStep :: "platform \<Rightarrow> FieldConfig \<Rightarrow> GeneratedRecord \<Rightarrow> nat \<Rightarrow> error + (GeneratedRecord \<times> nat)" where
  "standardFieldStep p field record k =
     (if name field = [] then Inr (record, k) else assignFieldValue p field record k)"

text \<open>The body of \<open>fields.forEach\<close> for a negative record: the target is found by its id.\<close>

definition negativeFieldStep :: "platform \<Rightarrow> FieldConfig \<Rightarrow> string \<Rightarrow> FieldConfig \<Rightarrow> GeneratedRecord \<Rightarrow> nat \<Rightarrow> error + (GeneratedRecord \<times> nat)" where
  "negativeFieldStep p targetField testType field record k =
     (if name field = [] then Inr (record, k)
      else if id_field field = id_field targetField then
        (case generateNegativeValue field testType of
           Inl e \<Rightarrow> Inl e
         | Inr v \<Rightarrow> Inr (record(name field \<mapsto> v), k))
      else assignFieldValue p field record k)"

text \<open>\<open>data.push(record)\<close> after the record has been filled by a loop over the fields.\<close>

definition pushRecord :: "(GeneratedRecord \<Rightarrow> nat \<Rightarrow> error + (GeneratedRecord \<times> nat)) \<Rightarrow> GeneratedRecord \<Rightarrow> GeneratedRecord list \<Rightarrow> nat \<Rightarrow> error + (GeneratedRecord list \<times> nat)" where
  "pushRecord fill initial data k =
     (case fill initial k of
        Inl e \<Rightarrow> Inl e
      | Inr (record, k') \<Rightarrow> Inr (data @ [record], k'))"

definition positiveInit :: GeneratedRecord where
  "positiveInit = [''_testType'' \<mapsto> JStr ''positive'']"

definition negativeInit :: "FieldConfig \<Rightarrow> string \<Rightarrow> GeneratedRecord" where
  "negativeInit targetField testType =
     [''_testType'' \<mapsto> JStr (''negative_'' @ testType),
      ''_targetField'' \<mapsto> JStr (name targetField),
      ''_autoSelected'' \<mapsto> JBool (shouldAutoEnableNegativeTests targetField)]"

text \<open>
  \<open>fields.filter((f) => f.dataType === "lookup" && getLookupValues(f).length > 0)\<close>:
  the resolver is called on the lookup fields only, and its exception ends the filter.
\<close>

fun lookupFieldsOf :: "FieldConfig list \<Rightarrow> error + FieldConfig list" where
  "lookupFieldsOf [] = Inr []"
| "lookupFieldsOf (f # fs) =
     (if dataType f = DLookup then
        (case getLookupValues f of
           Inl e \<Rightarrow> Inl e
         | Inr vs \<Rightarrow>
             (case lookupFieldsOf fs of
                Inl e \<Rightarrow> Inl e
              | Inr rest \<Rightarrow> Inr (if length vs > 0 then f # rest else rest)))
      else lookupFieldsOf fs)"

text \<open>\<open>lookupFields.map((f) => getLookupValues(f).length)\<close>.\<close>

fun lookupLengths :: "FieldConfig list \<Rightarrow> error + int list" where
  "lookupLengths [] = Inr []"
| "lookupLengths (f # fs) =
     (case getLookupValues f of
        Inl e \<Rightarrow> Inl e
      | Inr vs \<Rightarrow>
          (case lookupLengths fs of
             Inl e \<Rightarrow> Inl e
           | Inr rest \<Rightarrow> Inr (int (length vs) # rest)))"

text \<open>
  \<open>Math.max(...xs)\<close>. The engine calls it on a non-empty list only; on the empty list
  JavaScript gives \<open>-Infinity\<close>, for which the record loop runs as often as for \<open>0\<close>.
\<close>

definition mathMax :: "int list \<Rightarrow> int" where
  "mathMax xs = (case xs of [] \<Rightarrow> 0 | x # rest \<Rightarrow> fold max rest x)"

text \<open>The positive batch: the first half of \<open>generateTestData\<close>.\<close>

definition positiveRecords :: "platform \<Rightarrow> FieldConfig list \<Rightarrow> int \<Rightarrow> nat \<Rightarrow> error + (GeneratedRecord list \<times> nat)" where
  "positiveRecords p fields' recordCount k =
     (case lookupFieldsOf fields' of
        Inl e \<Rightarrow> Inl e
      | Inr lookupFields \<Rightarrow>
          if length lookupFields > 0 then
            (case lookupLengths lookupFields of
               Inl e \<Rightarrow> Inl e
             | Inr lens \<Rightarrow>
                 (let maxLookupValues = mathMax lens;
                      actualRecordCount = min maxLookupValues recordCount
                  in forEach (\<lambda>i. pushRecord (forEach (lookupFieldStep p i) fields') positiveInit)
                       [0 ..< nat actualRecordCount] [] k))
          else
            forEach (\<lambda>i. pushRecord (forEach (standardFieldStep p) fields') positiveInit)
              [0 ..< nat recordCount] [] k)"

definition negativeTestFields :: "FieldConfig list \<Rightarrow> FieldConfig list" where
  "negativeTestFields fields' =
     filter (\<lambda>f. (generateNegativeTests f = Some True \<or> shouldAutoEnableNegativeTests f)
                  \<and> name f \<noteq> []) fields'"

definition shouldIncludeNegativeTests :: "bool \<Rightarrow> FieldConfig list \<Rightarrow> bool" where
  "shouldIncludeNegativeTests includeNegativeTests fields' =
     (includeNegativeTests \<or> (\<exists>f \<in> set fields'. shouldAutoEnableNegativeTests f))"

text \<open>The negative batch, appended to the records made so far.\<close>

definition negativeRecords :: "platform \<Rightarrow> FieldConfig list \<Rightarrow> GeneratedRecord list \<Rightarrow> nat \<Rightarrow> error + (GeneratedRecord list \<times> nat)" where
  "negativeRecords p fields' data k =
     forEach (\<lambda>targetField.
        forEach (\<lambda>testType.
            pushRecord (forEach (negativeFieldStep p targetField testType) fields')
              (negativeInit targetField testType))
          (getNegativeTestTypes targetField))
       (negativeTestFields fields') data k"

text \<open>
  \<open>generateTestData\<close>, with the component state it reads (\<open>fields\<close>, \<open>recordCount\<close>,
  \<open>includeNegativeTests\<close>) as parameters; the result is the array given to
  \<open>setGeneratedData\<close>. The random source is read from its first draw.
\<close>

definition generateTestData :: "platform \<Rightarrow> FieldConfig list \<Rightarrow> int \<Rightarrow> bool \<Rightarrow> error + GeneratedRecord list" where
  "generateTestData p fields' recordCount includeNegativeTests =
     (case positiveRecords p fields' recordCount 0 of
        Inl e \<Rightarrow> Inl e
      | Inr (data, k) \<Rightarrow>
          if shouldIncludeNegativeTests includeNegativeTests fields' then
            (case negativeRecords p fields' data k of
               Inl e \<Rightarrow> Inl e
             | Inr (data', k') \<Rightarrow> Inr data')
          else Inr data)"

subsection \<open>Field inference\<close>

record SidCommand =
  id_command :: string
  label :: "string option"
  command :: string
  target :: string
  value_command :: string
  randomization :: "string option"

text \<open>\<open>generatePasswordPattern\<close>: the loop appends one piece per character.\<close>

definition passwordPiece :: "char \<Rightarrow> string" where
  "passwordPiece c =
     (if isUpper c then ''{UPPER}''
      else if isLower c then ''{lower}''
      else if isDigit c then ''{digit}''
      else [c])"

primrec generatePasswordPattern :: "string \<Rightarrow> string" where
  "generatePasswordPattern [] = []"
| "generatePasswordPattern (c # cs) = passwordPiece c @ generatePasswordPattern cs"

text \<open>\<open>phone.replace(/\d/g, "{digit}")\<close>.\<close>

primrec generatePhonePattern :: "string \<Rightarrow> string" where
  "generatePhonePattern [] = []"
| "generatePhonePattern (c # cs) =
     (if isDigit c then ''{digit}'' else [c]) @ generatePhonePattern cs"

text \<open>\<open>s.replace(/\s+/g, "_")\<close>: every maximal run of white space becomes one underscore.\<close>

function replaceWhiteSpace :: "string \<Rightarrow> string" where
  "replaceWhiteSpace [] = []"
| "replaceWhiteSpace (c # cs) =
     (if isWhiteSpace c then CHR ''_'' # replaceWhiteSpace (dropWhile isWhiteSpace cs)
      else c # replaceWhiteSpace cs)"
  by pat_completeness auto
termination
  by (relation "measure length") (auto simp: length_dropWhile_le less_Suc_eq_le)

text \<open>\<open>/^\d+$/.test(s)\<close>.\<close>

definition allDigits :: "string \<Rightarrow> bool" where
  "allDigits s = (s \<noteq> [] \<and> list_all isDigit s)"

text \<open>\<open>Number.parseInt(s)\<close> on a string of decimal digits.\<close>

definition parseDigits :: "string \<Rightarrow> int" where
  "parseDigits s = foldl (\<lambda>acc c. 10 * acc + indexOf digitChars c) 0 s"

text \<open>\<open>s.split("@")[1]\<close> for a string that holds an \<open>@\<close>: what lies between the first
  \<open>@\<close> and the next one (or the end).\<close>

definition afterAt :: "string \<Rightarrow> string" where
  "afterAt s = takeWhile (\<lambda>c. c \<noteq> CHR ''@'') (drop 1 (dropWhile (\<lambda>c. c \<noteq> CHR ''@'') s))"

text \<open>
  The chain of tests in \<open>parseSidFile\<close> that fixes the type, the generation strategy and
  the configuration from the command and its sample value; the first test that holds
  decides.
\<close>

definition inferField :: "SidCommand \<Rightarrow> fieldType \<times> dataType \<times> config" where
  "inferField c =
     (let v = value_command c in
      if command c = ''password'' then
        (TString, DPattern, emptyConfig\<lparr> pattern := Some (generatePasswordPattern v) \<rparr>)
      else if allDigits v then
        (if length v \<ge> 6 then
           (let baseValue = parseDigits v in
            (TNumber, DRange, emptyConfig\<lparr> rangeMin := Some (max 1 (baseValue - 1000000)),
                                            rangeMax := Some (baseValue + 1000000) \<rparr>))
         else (TNumber, DStatic, emptyConfig\<lparr> staticValue := Some v \<rparr>))
      else if CHR ''@'' \<in> set v then
        (TEmail, DPattern, emptyConfig\<lparr> pattern := Some (''{random}@'' @ afterAt v) \<rparr>)
      else if length (filter isDigit v) \<ge> 10 then
        (TPhone, DPattern, emptyConfig\<lparr> pattern := Some (generatePhonePattern v) \<rparr>)
      else
        (TString, DMinmax, emptyConfig\<lparr> minLength := Some (max 1 (int (length v) - 2)),
                                          maxLength := Some (int (length v) + 2) \<rparr>))"

text \<open>
  The body of \<open>test.commands.forEach\<close>: a labelled \<open>type\<close> or \<open>password\<close> command with a
  sample value adds a field, unless a field of that name was extracted before.
\<close>

definition extractField :: "platform \<Rightarrow> FieldConfig list \<Rightarrow> SidCommand \<Rightarrow> FieldConfig list" where
  "extractField p extractedFields c =
     (if truthyStr (label c) \<and> value_command c \<noteq> []
         \<and> (command c = ''type'' \<or> command c = ''password'') then
        (let fieldName = replaceWhiteSpace (toLowerCase (the (label c)));
             (fieldType, dataType', config') = inferField c
         in if \<exists>f \<in> set extractedFields. name f = fieldName then extractedFields
            else extractedFields @
              [\<lparr> id_field = freshId p (length extractedFields), name = fieldName,
                 type = fieldType, dataType = dataType', required = True,
                 maxFieldLength = None, generateNegativeTests = None, config = config' \<rparr>])
      else extractedFields)"

text \<open>
  \<open>parseSidFile\<close>, from the parsed file on: \<open>tests\<close> holds the command list of each test
  of the file, and the result is the list given to \<open>setFields\<close>.
\<close>

definition parseSidFile :: "platform \<Rightarrow> SidCommand list list \<Rightarrow> FieldConfig list" where
  "parseSidFile p tests = foldl (\<lambda>extracted test. foldl (extractField p) extracted test) [] tests"

subsection \<open>Vocabulary of the theorems and sample inputs\<close>

text \<open>
  The three loops over the fields share one shape: an unnamed field is skipped, a named
  field is assigned the value that the loop computes for it.
\<close>

definition assignStep :: "(FieldConfig \<Rightarrow> nat \<Rightarrow> error + (jsval \<times> nat)) \<Rightarrow> FieldConfig \<Rightarrow> GeneratedRecord \<Rightarrow> nat \<Rightarrow> error + (GeneratedRecord \<times> nat)" where
  "assignStep val field record k =
     (if name field = [] then Inr (record, k)
      else case val field k of
             Inl e \<Rightarrow> Inl e
           | Inr (v, k') \<Rightarrow> Inr (record(name field \<mapsto> v), k'))"

text \<open>A platform whose every draw is \<open>r\<close>.\<close>

definition constPlatform :: "rat \<Rightarrow> platform" where
  "constPlatform r = \<lparr> random = (\<lambda>k. r), isoDate = (\<lambda>x. ''2024-01-01''),
     toString36 = (\<lambda>x. ''0.k3x9q7m2p''), freshId = (\<lambda>n. ''id-'' @ showNat n) \<rparr>"

text \<open>A field as the \<open>Add Field\<close> path builds it, with a name, a type, a strategy and a
  configuration bag; it is not required and has no length limit.\<close>

definition plainField :: "string \<Rightarrow> fieldType \<Rightarrow> dataType \<Rightarrow> config \<Rightarrow> FieldConfig" where
  "plainField n ty dt c = \<lparr> id_field = ''id-'' @ n, name = n, type = ty, dataType = dt,
     required = False, maxFieldLength = None, generateNegativeTests = None, config = c \<rparr>"

text \<open>A lookup field whose CSV column \<open>city\<close> is not in the header row \<open>town\<close>, with and
  without manual values beside it.\<close>

definition csvMissField :: FieldConfig where
  "csvMissField = plainField ''city'' TString DLookup
     (emptyConfig\<lparr> lookupValues := Some [''Oslo''], csvData := Some [[''town''], [''Rome'']],
        csvColumn := Some ''city'' \<rparr>)"

definition csvOnlyField :: FieldConfig where
  "csvOnlyField = plainField ''city'' TString DLookup
     (emptyConfig\<lparr> csvData := Some [[''town''], [''Rome'']], csvColumn := Some ''city'' \<rparr>)"

text \<open>A bound as the claims read it: the configured value, or the default when unset.\<close>

definition setOrDefault :: "int option \<Rightarrow> int \<Rightarrow> int" where
  "setOrDefault x d = (case x of None \<Rightarrow> d | Some v \<Rightarrow> v)"

definition unsetOrPositive :: "int option \<Rightarrow> bool" where
  "unsetOrPositive x = (case x of None \<Rightarrow> True | Some v \<Rightarrow> 0 < v)"


text \<open>A range field whose upper bound is set to \<open>0\<close>.\<close>

definition zeroMaxField :: FieldConfig where
  "zeroMaxField = plainField ''delta'' TNumber DRange
      (emptyConfig\<lparr> rangeMin := Some (- 10), rangeMax := Some 0 \<rparr>)"

text \<open>A \<open>minmax\<close> field of a given type and length bounds.\<close>

definition minmaxField :: "fieldType \<Rightarrow> int option \<Rightarrow> int option \<Rightarrow> FieldConfig" where
  "minmaxField ty lo hi = plainField ''sample'' ty DMinmax
      (emptyConfig\<lparr> minLength := lo, maxLength := hi \<rparr>)"

text \<open>A recorded password command with the sample value \<open>Ab3x\<close>.\<close>

definition passwordCommand :: SidCommand where
  "passwordCommand = \<lparr> id_command = ''7'', label = Some ''Password'', command = ''password'',
      target = ''id=pw'', value_command = ''Ab3x'', randomization = None \<rparr>"

text \<open>The reserved metadata keys of a generated record.\<close>

definition reservedKeys :: "string set" where
  "reservedKeys = {''_testType'', ''_targetField'', ''_autoSelected''}"

text \<open>The names of the named fields, and the condition that no two named fields share
  one.\<close>

definition fieldNames :: "FieldConfig list \<Rightarrow> string set" where
  "fieldNames fs = set (filter (\<lambda>n. n \<noteq> []) (map name fs))"


text \<open>The value each of the three loops over the fields assigns to a named field.\<close>

definition lookupStepValue :: "platform \<Rightarrow> nat \<Rightarrow> FieldConfig \<Rightarrow> nat \<Rightarrow> error + (jsval \<times> nat)" where
  "lookupStepValue p i field k =
     (if dataType field = DLookup then
        (case getLookupValues field of
           Inl e \<Rightarrow> Inl e
         | Inr vs \<Rightarrow> Inr (JStr (if length vs > 0 then vs ! (i mod length vs) else []), k))
      else generateFieldValue p field k)"

definition negativeStepValue :: "platform \<Rightarrow> FieldConfig \<Rightarrow> string \<Rightarrow> FieldConfig \<Rightarrow> nat \<Rightarrow> error + (jsval \<times> nat)" where
  "negativeStepValue p targetField testType field k =
     (if id_field field = id_field targetField then
        (case generateNegativeValue field testType of
           Inl e \<Rightarrow> Inl e
         | Inr v \<Rightarrow> Inr (v, k))
      else generateFieldValue p field k)"

text \<open>The resolved lookup values of a field (none when resolution throws), and the largest
  number of them among the lookup fields.\<close>

definition resolvedValues :: "FieldConfig \<Rightarrow> string list" where
  "resolvedValues f = (case getLookupValues f of Inl e \<Rightarrow> [] | Inr vs \<Rightarrow> vs)"

definition largestLookup :: "FieldConfig list \<Rightarrow> int" where
  "largestLookup fs =
     fold max (map (\<lambda>f. int (length (resolvedValues f))) (filter (\<lambda>f. dataType f = DLookup) fs)) 0"

text \<open>The target fields of the negative batch, in the order of the configuration: none
  unless the run includes negative tests at all.\<close>

definition eligibleTargets :: "bool \<Rightarrow> FieldConfig list \<Rightarrow> FieldConfig list" where
  "eligibleTargets includeNegativeTests fs =
     (if shouldIncludeNegativeTests includeNegativeTests fs then negativeTestFields fs else [])"

text \<open>What one positive and one negative record of a run are: the result of the loop over
  the fields, started from the metadata, at some state of the random source.\<close>

definition positiveRecordOf :: "platform \<Rightarrow> FieldConfig list \<Rightarrow> GeneratedRecord \<Rightarrow> bool" where
  "positiveRecordOf p fs r =
     ((\<exists>k1 k2. forEach (standardFieldStep p) fs positiveInit k1 = Inr (r, k2))
      \<or> (\<exists>i k1 k2. forEach (lookupFieldStep p i) fs positiveInit k1 = Inr (r, k2)))"

definition negativeRecordOf :: "platform \<Rightarrow> FieldConfig list \<Rightarrow> FieldConfig \<Rightarrow> string \<Rightarrow> GeneratedRecord \<Rightarrow> bool" where
  "negativeRecordOf p fs t testType r =
     (\<exists>k1 k2. forEach (negativeFieldStep p t testType) fs (negativeInit t testType) k1 = Inr (r, k2))"

text \<open>The conditions under which a run returns: lookup resolution does not throw on a
  lookup field, and the count of \<open>"A".repeat\<close> for \<open>exceed_length\<close> is not negative.\<close>

definition resolvable :: "FieldConfig \<Rightarrow> bool" where
  "resolvable f = (case getLookupValues f of Inl e \<Rightarrow> dataType f \<noteq> DLookup | Inr vs \<Rightarrow> True)"


text \<open>The metadata of a record, and the pair of \<open>_testType\<close> and \<open>_targetField\<close> by which
  a record shows its place in the output.\<close>

definition testTypeOf :: "GeneratedRecord \<Rightarrow> jsval option" where
  "testTypeOf r = r ''_testType''"

definition targetFieldOf :: "GeneratedRecord \<Rightarrow> jsval option" where
  "targetFieldOf r = r ''_targetField''"

definition autoSelectedOf :: "GeneratedRecord \<Rightarrow> jsval option" where
  "autoSelectedOf r = r ''_autoSelected''"




definition positiveRecord :: "GeneratedRecord \<Rightarrow> bool" where
  "positiveRecord r = (r ''_testType'' = Some (JStr ''positive''))"

definition tagOf :: "GeneratedRecord \<Rightarrow> jsval option \<times> jsval option" where
  "tagOf r = (r ''_testType'', r ''_targetField'')"

definition positiveTag :: "jsval option \<times> jsval option" where
  "positiveTag = (Some (JStr ''positive''), None)"

definition negativeTag :: "FieldConfig \<Rightarrow> string \<Rightarrow> jsval option \<times> jsval option" where
  "negativeTag t testType = (Some (JStr (''negative_'' @ testType)), Some (JStr (name t)))"

text \<open>The test types of the records of a run, when it returns.\<close>

definition testTypesOf :: "error + GeneratedRecord list \<Rightarrow> error + jsval option list" where
  "testTypesOf res = (case res of Inl e \<Rightarrow> Inl e | Inr data \<Rightarrow> Inr (map testTypeOf data))"

text \<open>
  The order in which section 4.6 of the specification lists the kinds of a field type:
  the kinds unlocked by \<open>required\<close> first, then the kinds of the type, the conditional
  ones last.
\<close>

definition listedOrder :: "fieldType \<Rightarrow> string list" where
  "listedOrder ty =
     [''empty'', ''null''] @
     (case ty of
        TString \<Rightarrow> [''too_long'', ''special_chars'', ''sql_injection'', ''exceed_length'']
      | TEmail \<Rightarrow> [''invalid_format'', ''missing_at'', ''missing_domain'']
      | TPhone \<Rightarrow> [''invalid_format'', ''too_short'', ''too_long'', ''letters'']
      | TNumber \<Rightarrow> [''string_value'', ''negative'', ''decimal'', ''overflow'', ''below_min'',
                     ''above_max'']
      | TDate \<Rightarrow> [''invalid_format'', ''future_date'', ''past_date'', ''invalid_day'']
      | TBoolean \<Rightarrow> [''string_value'', ''number_value''])"

text \<open>
  A sample configuration: an unnamed field, a required string field \<open>code\<close> limited to 5
  characters, and a boolean field \<open>flag\<close> with negative tests switched on by hand; and the
  records that one run with one positive record yields for it.
\<close>

definition unnamedField :: FieldConfig where
  "unnamedField = plainField [] TString DStatic emptyConfig"

definition codeField :: FieldConfig where
  "codeField = (plainField ''code'' TString DStatic
      (emptyConfig\<lparr> staticValue := Some ''ABCDEFGH'' \<rparr>))
      \<lparr> required := True, maxFieldLength := Some 5 \<rparr>"

definition flagField :: FieldConfig where
  "flagField = (plainField ''flag'' TBoolean DStatic (emptyConfig\<lparr> staticValue := Some ''yes'' \<rparr>))
      \<lparr> generateNegativeTests := Some True \<rparr>"

definition sampleFields :: "FieldConfig list" where
  "sampleFields = [unnamedField, codeField, flagField]"

definition codeNegative :: "string \<Rightarrow> jsval \<Rightarrow> GeneratedRecord" where
  "codeNegative testType v =
     [''_testType'' \<mapsto> JStr (''negative_'' @ testType), ''_targetField'' \<mapsto> JStr ''code'',
      ''_autoSelected'' \<mapsto> JBool True, ''code'' \<mapsto> v, ''flag'' \<mapsto> JStr ''yes'']"

definition flagNegative :: "string \<Rightarrow> jsval \<Rightarrow> GeneratedRecord" where
  "flagNegative testType v =
     [''_testType'' \<mapsto> JStr (''negative_'' @ testType), ''_targetField'' \<mapsto> JStr ''flag'',
      ''_autoSelected'' \<mapsto> JBool False, ''code'' \<mapsto> JStr ''ABCDE'', ''flag'' \<mapsto> v]"

definition sampleRun :: "GeneratedRecord list" where
  "sampleRun =
     [[''_testType'' \<mapsto> JStr ''positive'', ''code'' \<mapsto> JStr ''ABCDE'', ''flag'' \<mapsto> JStr ''yes''],
      codeNegative ''empty'' (JStr []),
      codeNegative ''null'' JNull,
      codeNegative ''too_long'' (JStr (replicate 1000 CHR ''A'')),
      codeNegative ''special_chars'' (JStr specialChars),
      codeNegative ''sql_injection'' (JStr sqlInjection),
      codeNegative ''exceed_length'' (JStr (replicate 15 CHR ''A'')),
      flagNegative ''string_value'' (JStr ''not_a_number''),
      flagNegative ''number_value'' (JInt 123)]"

text \<open>A required string field with the lengths 3..3, named or not, limited or not.\<close>

definition requiredMinmaxField :: "string \<Rightarrow> int option \<Rightarrow> FieldConfig" where
  "requiredMinmaxField n limit = (plainField n TString DMinmax
      (emptyConfig\<lparr> minLength := Some 3, maxLength := Some 3 \<rparr>))
      \<lparr> required := True, maxFieldLength := limit \<rparr>"







section \<open>Properties\<close>

subsection \<open>Loops\<close>

lemma forEach_append:
  "forEach body (xs @ ys) r k =
     (case forEach body xs r k of Inl e \<Rightarrow> Inl e | Inr (r', k') \<Rightarrow> forEach body ys r' k')"
  by (induction xs arbitrary: r k) (auto split: sum.splits)

lemma forEach_invariant:
  assumes "forEach body xs r k = Inr (r', k')"
    and "I r"
    and "\<And>x a j a' j'. x \<in> set xs \<Longrightarrow> I a \<Longrightarrow> body x a j = Inr (a', j') \<Longrightarrow> I a'"
  shows "I r'"
  using assms
proof (induction xs arbitrary: r k)
  case Nil
  then show ?case by simp
next
  case (Cons x xs)
  from Cons.prems(1) obtain a j where b: "body x r k = Inr (a, j)" and rest: "forEach body xs a j = Inr (r', k')"
    by (auto split: sum.splits)
  have "I a" using Cons.prems(3)[OF _ Cons.prems(2) b] by simp
  show ?case
  proof (rule Cons.IH[OF rest \<open>I a\<close>])
    fix y a1 j1 a2 j2
    assume "y \<in> set xs" "I a1" "body y a1 j1 = Inr (a2, j2)"
    then show "I a2" using Cons.prems(3)[of y a1 j1 a2 j2] by simp
  qed
qed

lemma forEach_concat:
  assumes "forEach body xs data k = Inr (data', k')"
    and "\<And>x a j a' j'. x \<in> set xs \<Longrightarrow> body x a j = Inr (a', j') \<Longrightarrow> \<exists>rs. a' = a @ rs \<and> R x rs"
  shows "\<exists>rss. data' = data @ concat rss \<and> list_all2 R xs rss"
  using assms
proof (induction xs arbitrary: data k)
  case Nil
  then show ?case by simp
next
  case (Cons x xs)
  from Cons.prems(1) obtain a j where b: "body x data k = Inr (a, j)" and rest: "forEach body xs a j = Inr (data', k')"
    by (auto split: sum.splits)
  from Cons.prems(2)[OF _ b] obtain rs where rs: "a = data @ rs" "R x rs" by auto
  from Cons.IH[OF rest] Cons.prems(2) obtain rss where rss: "data' = a @ concat rss" "list_all2 R xs rss"
    by (metis list.set_intros(2))
  have "data' = data @ concat (rs # rss)" using rs rss by simp
  moreover have "list_all2 R (x # xs) (rs # rss)" using rs rss by simp
  ultimately show ?case by blast
qed

lemma forEach_push:
  assumes "forEach (\<lambda>x. pushRecord (fill x) (init x)) xs data k = Inr (data', k')"
  shows "\<exists>rs. data' = data @ rs \<and> list_all2 (\<lambda>x r. \<exists>k1 k2. fill x (init x) k1 = Inr (r, k2)) xs rs"
  using assms
proof (induction xs arbitrary: data k)
  case Nil
  then show ?case by simp
next
  case (Cons x xs)
  from Cons.prems obtain a j where b: "pushRecord (fill x) (init x) data k = Inr (a, j)"
    and rest: "forEach (\<lambda>x. pushRecord (fill x) (init x)) xs a j = Inr (data', k')"
    by (auto split: sum.splits)
  from b obtain r where r: "fill x (init x) k = Inr (r, j)" "a = data @ [r]"
    by (auto simp: pushRecord_def split: sum.splits)
  from Cons.IH[OF rest] obtain rs where rs: "data' = a @ rs"
    "list_all2 (\<lambda>x r. \<exists>k1 k2. fill x (init x) k1 = Inr (r, k2)) xs rs" by blast
  have "data' = data @ (r # rs)" using r rs by simp
  moreover have "list_all2 (\<lambda>x r. \<exists>k1 k2. fill x (init x) k1 = Inr (r, k2)) (x # xs) (r # rs)"
    using r rs by auto
  ultimately show ?case by blast
qed

subsection \<open>The lookup value resolver\<close>

lemma indexOf_notin: "x \<notin> set xs \<Longrightarrow> indexOf xs x = - 1"
  by (induction xs) (auto simp: Let_def)

lemma indexOf_in:
  "x \<in> set xs \<Longrightarrow> 0 \<le> indexOf xs x \<and> nat (indexOf xs x) < length xs \<and> xs ! nat (indexOf xs x) = x"
proof (induction xs)
  case Nil
  then show ?case by simp
next
  case (Cons y ys)
  show ?case
  proof (cases "y = x")
    case True
    then show ?thesis by simp
  next
    case False
    with Cons.prems have "x \<in> set ys" by simp
    from Cons.IH[OF this] False show ?thesis
      by (auto simp: Let_def nat_add_distrib)
  qed
qed

text \<open>
  Claim C1, as the code has it. When \<open>csvData\<close> has a header row and \<open>csvColumn\<close> is set but
  does not occur in that row, lookup resolution does not stop with an empty sequence: it
  falls through to the manual \<open>lookupValues\<close> with the blank entries dropped. The result
  is empty when no manual value is left (always so when \<open>lookupValues\<close> is unset), and
  lookup synthesis then yields the empty string.
\<close>

theorem C1_csv_column_missing_falls_back:
  assumes "csvData (config field) = Some (header # rows)"
    and "csvColumn (config field) = Some col" and "col \<noteq> []" and "col \<notin> set header"
  shows "getLookupValues field = Inr (manualLookupValues field)
         \<and> (lookupValues (config field) = None \<longrightarrow> manualLookupValues field = [])
         \<and> (manualLookupValues field = [] \<longrightarrow> dataType field = DLookup \<longrightarrow>
              (\<forall>p k. generateFieldValue p field k = Inr (JStr [], k)))"
proof -
  have g: "getLookupValues field = Inr (manualLookupValues field)"
    using assms by (simp add: getLookupValues_def truthyStr_def indexOf_notin)
  have "lookupValues (config field) = None \<longrightarrow> manualLookupValues field = []"
    by (simp add: manualLookupValues_def)
  moreover have "manualLookupValues field = [] \<longrightarrow> dataType field = DLookup \<longrightarrow>
              (\<forall>p k. generateFieldValue p field k = Inr (JStr [], k))"
    using g by (simp add: generateFieldValue_def)
  ultimately show ?thesis using g by blast
qed

theorem C1_csv_column_missing_witness:
  "getLookupValues csvOnlyField = Inr []
   \<and> generateFieldValue (constPlatform 0) csvOnlyField 0 = Inr (JStr [], 0)"
proof -
  have a: "csvData (config csvOnlyField) = Some ([''town''] # [[''Rome'']])"
    and b: "csvColumn (config csvOnlyField) = Some ''city''"
    and c: "lookupValues (config csvOnlyField) = None" and d: "dataType csvOnlyField = DLookup"
    by (simp_all add: csvOnlyField_def plainField_def emptyConfig_def)
  have e: "''city'' \<noteq> []" and f: "''city'' \<notin> set [''town'']" by simp_all
  from C1_csv_column_missing_falls_back [OF a b e f] c d show ?thesis by simp
qed

text \<open>
  Claim C1 as stated fails: with the manual value \<open>Oslo\<close> beside a CSV column that is not
  in the header row, resolution returns \<open>Oslo\<close> and synthesis yields it.
\<close>

theorem C1_manual_values_used_counterexample:
  "getLookupValues csvMissField = Inr [''Oslo'']
   \<and> generateFieldValue (constPlatform 0) csvMissField 0 = Inr (JStr ''Oslo'', 1)"
  by (simp add: csvMissField_def plainField_def getLookupValues_def emptyConfig_def truthyStr_def
      manualLookupValues_def nonBlank_def trim_def isWhiteSpace_def generateFieldValue_def
      Let_def constPlatform_def randomBelow_def elemAt_def applyFieldLength_def truthyNum_def)

subsection \<open>Random draws\<close>

lemma randomBelow_bounds:
  assumes "unitRandom p" and "0 < n"
  shows "0 \<le> randomBelow p k n \<and> randomBelow p k n < n"
proof -
  from assms(1) have r: "0 \<le> random p k" "random p k < 1" by (auto simp: unitRandom_def)
  have n: "(0::rat) < of_int n" using assms(2) by simp
  have "0 \<le> random p k * of_int n" using r n by simp
  then have lo: "0 \<le> randomBelow p k n" by (simp add: randomBelow_def)
  have "random p k * of_int n < 1 * of_int n" using r n by (simp only: mult_strict_right_mono)
  then have "random p k * of_int n < of_int n" by simp
  then have "randomBelow p k n < n" by (simp add: randomBelow_def floor_less_iff)
  with lo show ?thesis by simp
qed

lemma unitRandom_constPlatform: "0 \<le> r \<Longrightarrow> r < 1 \<Longrightarrow> unitRandom (constPlatform r)"
  by (simp add: unitRandom_def constPlatform_def)

lemma length_alphanumerics: "length alphanumerics = 62"
  by (simp add: alphanumerics_def upperChars_def lowerChars_def digitChars_def)

lemma randomChars_length:
  assumes "unitRandom p"
  shows "length (fst (randomChars p n k)) = n \<and> snd (randomChars p n k) = k + n"
proof (induction n arbitrary: k)
  case 0
  then show ?case by simp
next
  case (Suc n)
  have "0 \<le> randomBelow p k 62 \<and> randomBelow p k 62 < 62"
    using randomBelow_bounds[OF assms, of 62 k] by simp
  then have "length (charAt alphanumerics (randomBelow p k (int (length alphanumerics)))) = 1"
    by (simp add: charAt_def length_alphanumerics)
  with Suc[of "Suc k"] show ?case
    by (auto simp: Let_def split: prod.splits)
qed

subsection \<open>The range strategy\<close>

lemma rangeValue_in_bounds:
  assumes "unitRandom p"
    and "numOr (rangeMin (config field)) 0 \<le> numOr (rangeMax (config field)) 100"
  shows "\<exists>n. rangeValue p field k = (JInt n, Suc k)
            \<and> numOr (rangeMin (config field)) 0 \<le> n \<and> n \<le> numOr (rangeMax (config field)) 100"
proof -
  define lo where "lo = numOr (rangeMin (config field)) 0"
  define hi where "hi = numOr (rangeMax (config field)) 100"
  have "0 < hi - lo + 1" using assms(2) by (simp add: lo_def hi_def)
  from randomBelow_bounds[OF assms(1) this, of k]
  have "lo \<le> randomBelow p k (hi - lo + 1) + lo" "randomBelow p k (hi - lo + 1) + lo \<le> hi"
    by simp_all
  then show ?thesis
    by (simp add: rangeValue_def Let_def lo_def hi_def)
qed

text \<open>
  Claim C5 at the failing input. A range field with \<open>rangeMin = -10\<close> and \<open>rangeMax = 0\<close>
  has both bounds set, so the claim puts every value in \<open>-10..0\<close>. The code reads the
  upper bound with \<open>rangeMax || 100\<close>, which takes the set bound \<open>0\<close> for a missing one: on
  the draw \<open>1/2\<close> the value is \<open>\<lfloor>1/2 * 111\<rfloor> - 10 = 45\<close>.
\<close>

theorem C5_zero_max_uses_default:
  "unitRandom (constPlatform (1 / 2))
   \<and> rangeMax (config zeroMaxField) = Some 0
   \<and> rangeValue (constPlatform (1 / 2)) zeroMaxField 0 = (JInt 45, 1)"
proof -
  have "rangeValue (constPlatform (1 / 2)) zeroMaxField 0 = (JInt 45, 1)"
    unfolding rangeValue_def zeroMaxField_def plainField_def emptyConfig_def numOr_def
      constPlatform_def randomBelow_def
    by code_simp
  moreover have "rangeMax (config zeroMaxField) = Some 0"
    by (simp add: zeroMaxField_def plainField_def emptyConfig_def)
  ultimately show ?thesis by (simp add: unitRandom_constPlatform)
qed

subsection \<open>The minmax strategy\<close>

lemma numOr_setOrDefault: "unsetOrPositive x \<Longrightarrow> numOr x d = setOrDefault x d"
  by (auto simp: numOr_def setOrDefault_def unsetOrPositive_def split: option.splits)

text \<open>
  Claim C4, as the code has it. Let \<open>minLength\<close> and \<open>maxLength\<close> each be unset or positive,
  with \<open>minLength \<le> maxLength\<close> after the defaults \<open>1\<close> and \<open>10\<close> stand in for unset bounds.
  For type \<open>string\<close> the value before truncation is a string whose length lies in
  \<open>[minLength, maxLength]\<close>. For type \<open>email\<close> that holds for the part before the appended
  \<open>@example.com\<close> only. For the types \<open>number\<close> and \<open>boolean\<close> the value is no string at
  all.
\<close>

theorem C4_minmax_length_by_type:
  assumes "unitRandom p"
    and "unsetOrPositive (minLength (config field))" and "unsetOrPositive (maxLength (config field))"
    and "setOrDefault (minLength (config field)) 1 \<le> setOrDefault (maxLength (config field)) 10"
  shows "(type field = TString \<longrightarrow>
            (\<exists>s k'. minmaxValue p field k = (JStr s, k')
               \<and> setOrDefault (minLength (config field)) 1 \<le> int (length s)
               \<and> int (length s) \<le> setOrDefault (maxLength (config field)) 10))
       \<and> (type field = TEmail \<longrightarrow>
            (\<exists>s k'. minmaxValue p field k = (JStr (s @ ''@example.com''), k')
               \<and> setOrDefault (minLength (config field)) 1 \<le> int (length s)
               \<and> int (length s) \<le> setOrDefault (maxLength (config field)) 10))
       \<and> (type field = TNumber \<longrightarrow> (\<exists>n k'. minmaxValue p field k = (JInt n, k')))
       \<and> (type field = TBoolean \<longrightarrow> (\<exists>b k'. minmaxValue p field k = (JBool b, k')))"
proof -
  define lo where "lo = setOrDefault (minLength (config field)) 1"
  define hi where "hi = setOrDefault (maxLength (config field)) 10"
  define len where "len = randomBelow p k (hi - lo + 1) + lo"
  have lo1: "numOr (minLength (config field)) 1 = lo"
    and hi1: "numOr (maxLength (config field)) 10 = hi"
    using assms(2,3) by (simp_all add: numOr_setOrDefault lo_def hi_def)
  have lopos: "0 < lo"
    using assms(2)
    by (auto simp: lo_def setOrDefault_def unsetOrPositive_def split: option.splits)
  have "0 < hi - lo + 1" using assms(4) by (simp add: lo_def hi_def)
  from randomBelow_bounds[OF assms(1) this, of k]
  have len: "lo \<le> len" "len \<le> hi" by (simp_all add: len_def)
  have mm: "minmaxValue p field k = generateRandomString p len (type field) (Suc k)"
    by (simp add: minmaxValue_def lo1 hi1 len_def Let_def)
  obtain res k1 where rc: "randomChars p (nat len) (Suc k) = (res, k1)"
    by (cases "randomChars p (nat len) (Suc k)")
  with randomChars_length[OF assms(1), of "nat len" "Suc k"] have "length res = nat len" by simp
  then have rl: "int (length res) = len" using len lopos by simp
  have s: "type field = TString \<longrightarrow> minmaxValue p field k = (JStr res, k1)"
    by (simp add: mm generateRandomString_def rc)
  have e: "type field = TEmail \<longrightarrow>
             minmaxValue p field k = (JStr (toLowerCase res @ ''@example.com''), k1)"
    by (simp add: mm generateRandomString_def rc)
  have n: "type field = TNumber \<longrightarrow> (\<exists>n k'. minmaxValue p field k = (JInt n, k'))"
    by (simp add: mm generateRandomString_def rc)
  have b: "type field = TBoolean \<longrightarrow> (\<exists>b k'. minmaxValue p field k = (JBool b, k'))"
    by (simp add: mm generateRandomString_def rc)
  have le: "int (length (toLowerCase res)) = len" using rl by (simp add: toLowerCase_def)
  have s': "type field = TString \<longrightarrow>
            (\<exists>s k'. minmaxValue p field k = (JStr s, k')
               \<and> lo \<le> int (length s) \<and> int (length s) \<le> hi)"
    using s rl len by auto
  have e': "type field = TEmail \<longrightarrow>
            (\<exists>s k'. minmaxValue p field k = (JStr (s @ ''@example.com''), k')
               \<and> lo \<le> int (length s) \<and> int (length s) \<le> hi)"
    using e le len by auto
  show ?thesis using s' e' n b unfolding lo_def hi_def by simp
qed

theorem C4_minmax_length_by_type_witness:
  "(\<exists>s k'. minmaxValue (constPlatform (1 / 2)) (minmaxField TString (Some 3) (Some 5)) 0 = (JStr s, k')
        \<and> 3 \<le> int (length s) \<and> int (length s) \<le> 5)
   \<and> (\<exists>s k'. minmaxValue (constPlatform (1 / 2)) (minmaxField TEmail None None) 0
                  = (JStr (s @ ''@example.com''), k')
        \<and> 1 \<le> int (length s) \<and> int (length s) \<le> 10)
   \<and> (\<exists>n k'. minmaxValue (constPlatform (1 / 2)) (minmaxField TNumber None None) 0 = (JInt n, k'))
   \<and> (\<exists>b k'. minmaxValue (constPlatform (1 / 2)) (minmaxField TBoolean None None) 0 = (JBool b, k'))"
proof -
  have u: "unitRandom (constPlatform (1 / 2))" by (simp add: unitRandom_constPlatform)
  have a: "unsetOrPositive (minLength (config (minmaxField ty (Some 3) (Some 5))))"
    "unsetOrPositive (maxLength (config (minmaxField ty (Some 3) (Some 5))))"
    "setOrDefault (minLength (config (minmaxField ty (Some 3) (Some 5)))) 1
       \<le> setOrDefault (maxLength (config (minmaxField ty (Some 3) (Some 5)))) 10" for ty
    by (simp_all add: minmaxField_def plainField_def emptyConfig_def unsetOrPositive_def
        setOrDefault_def)
  have b: "unsetOrPositive (minLength (config (minmaxField ty None None)))"
    "unsetOrPositive (maxLength (config (minmaxField ty None None)))"
    "setOrDefault (minLength (config (minmaxField ty None None))) 1
       \<le> setOrDefault (maxLength (config (minmaxField ty None None))) 10" for ty
    by (simp_all add: minmaxField_def plainField_def emptyConfig_def unsetOrPositive_def
        setOrDefault_def)
  have t: "type (minmaxField ty lo hi) = ty"
    "minLength (config (minmaxField ty lo hi)) = lo"
    "maxLength (config (minmaxField ty lo hi)) = hi" for ty lo hi
    by (simp_all add: minmaxField_def plainField_def emptyConfig_def)
  from C4_minmax_length_by_type [OF u a, of TString 0]
       C4_minmax_length_by_type [OF u b, of TEmail 0]
       C4_minmax_length_by_type [OF u b, of TNumber 0]
       C4_minmax_length_by_type [OF u b, of TBoolean 0]
  show ?thesis by (simp add: t setOrDefault_def)
qed

text \<open>
  Claim C4 as stated fails for the type \<open>email\<close>: with \<open>minLength = maxLength = 3\<close> the
  value before truncation has 15 characters.
\<close>

theorem C4_email_length_counterexample:
  "minmaxValue (constPlatform 0) (minmaxField TEmail (Some 3) (Some 3)) 0
     = (JStr ''aaa@example.com'', 4)
   \<and> length ''aaa@example.com'' = 15"
  by (simp add: minmaxValue_def minmaxField_def plainField_def emptyConfig_def numOr_def
      constPlatform_def randomBelow_def generateRandomString_def numeral_3_eq_3 charAt_def
      alphanumerics_def upperChars_def lowerChars_def digitChars_def toLowerCase_def
      toLowerChar_def)

subsection \<open>Field inference\<close>

lemma generatePasswordPattern_Ab3x:
  "generatePasswordPattern ''Ab3x'' = ''{UPPER}{lower}{digit}{lower}''"
  by (simp add: passwordPiece_def isUpper_def isLower_def isDigit_def upperChars_def
      lowerChars_def digitChars_def)

lemma name_of_Email_Address: "replaceWhiteSpace (toLowerCase ''Email Address'') = ''email_address''"
  by (simp add: toLowerCase_def toLowerChar_def upperChars_def lowerChars_def isWhiteSpace_def)

lemma inferField_jane:
  "command c = ''type'' \<Longrightarrow> value_command c = ''jane@acme.com'' \<Longrightarrow>
   inferField c = (TEmail, DPattern, emptyConfig\<lparr> pattern := Some ''{random}@acme.com'' \<rparr>)"
  by (simp add: inferField_def allDigits_def isDigit_def digitChars_def afterAt_def)

text \<open>
  Claim C8. Field inference on the one command \<open>type\<close>, label \<open>Email Address\<close>, value
  \<open>jane@acme.com\<close> yields one field named \<open>email_address\<close>, of type \<open>email\<close>, strategy
  \<open>pattern\<close> and pattern \<open>{random}@acme.com\<close>. The pattern derived from the password sample
  \<open>Ab3x\<close> is \<open>{UPPER}{lower}{digit}{lower}\<close>, and field inference on a \<open>password\<close> command
  with that sample value and a non-empty label yields a field with that pattern.
\<close>

theorem C8_field_inference_examples:
  "parseSidFile p [[\<lparr> id_command = i, label = Some ''Email Address'', command = ''type'',
        target = t, value_command = ''jane@acme.com'', randomization = z \<rparr>]]
     = [\<lparr> id_field = freshId p 0, name = ''email_address'', type = TEmail, dataType = DPattern,
          required = True, maxFieldLength = None, generateNegativeTests = None,
          config = emptyConfig\<lparr> pattern := Some ''{random}@acme.com'' \<rparr> \<rparr>]
   \<and> generatePasswordPattern ''Ab3x'' = ''{UPPER}{lower}{digit}{lower}''
   \<and> (l \<noteq> [] \<longrightarrow>
        parseSidFile p [[\<lparr> id_command = i', label = Some l, command = ''password'',
            target = t', value_command = ''Ab3x'', randomization = z' \<rparr>]]
         = [\<lparr> id_field = freshId p 0, name = replaceWhiteSpace (toLowerCase l), type = TString,
              dataType = DPattern, required = True, maxFieldLength = None,
              generateNegativeTests = None,
              config = emptyConfig\<lparr> pattern := Some ''{UPPER}{lower}{digit}{lower}'' \<rparr> \<rparr>])"
proof -
  have a: "parseSidFile p [[\<lparr> id_command = i, label = Some ''Email Address'', command = ''type'',
        target = t, value_command = ''jane@acme.com'', randomization = z \<rparr>]]
     = [\<lparr> id_field = freshId p 0, name = ''email_address'', type = TEmail, dataType = DPattern,
          required = True, maxFieldLength = None, generateNegativeTests = None,
          config = emptyConfig\<lparr> pattern := Some ''{random}@acme.com'' \<rparr> \<rparr>]"
    by (simp add: parseSidFile_def extractField_def truthyStr_def inferField_jane
        name_of_Email_Address)
  have b: "l \<noteq> [] \<longrightarrow>
        parseSidFile p [[\<lparr> id_command = i', label = Some l, command = ''password'',
            target = t', value_command = ''Ab3x'', randomization = z' \<rparr>]]
         = [\<lparr> id_field = freshId p 0, name = replaceWhiteSpace (toLowerCase l), type = TString,
              dataType = DPattern, required = True, maxFieldLength = None,
              generateNegativeTests = None,
              config = emptyConfig\<lparr> pattern := Some ''{UPPER}{lower}{digit}{lower}'' \<rparr> \<rparr>]"
    by (simp add: parseSidFile_def extractField_def truthyStr_def inferField_def passwordPiece_def
        isUpper_def isLower_def isDigit_def upperChars_def lowerChars_def digitChars_def)
  show ?thesis using a b generatePasswordPattern_Ab3x by blast
qed

theorem C8_field_inference_examples_witness:
  "map name (parseSidFile (constPlatform 0) [[passwordCommand]]) = [''password'']
   \<and> map type (parseSidFile (constPlatform 0) [[passwordCommand]]) = [TString]
   \<and> map dataType (parseSidFile (constPlatform 0) [[passwordCommand]]) = [DPattern]
   \<and> map config (parseSidFile (constPlatform 0) [[passwordCommand]])
        = [emptyConfig\<lparr> pattern := Some ''{UPPER}{lower}{digit}{lower}'' \<rparr>]"
proof -
  have "''Password'' \<noteq> []" by simp
  with C8_field_inference_examples
         [of "constPlatform 0" i t z "''Password''" "''7''" "''id=pw''" None]
  show ?thesis
    by (simp add: passwordCommand_def toLowerCase_def toLowerChar_def upperChars_def
        lowerChars_def isWhiteSpace_def)
qed

subsection \<open>The loops over the fields\<close>

lemma standardFieldStep_assign: "standardFieldStep p = assignStep (generateFieldValue p)"
  by (intro ext) (simp add: standardFieldStep_def assignStep_def assignFieldValue_def)

lemma lookupFieldStep_assign: "lookupFieldStep p i = assignStep (lookupStepValue p i)"
  by (intro ext)
    (auto simp: lookupFieldStep_def assignStep_def assignFieldValue_def lookupStepValue_def
      split: sum.splits)

lemma negativeFieldStep_assign:
  "negativeFieldStep p t testType = assignStep (negativeStepValue p t testType)"
  by (intro ext)
    (auto simp: negativeFieldStep_def assignStep_def assignFieldValue_def negativeStepValue_def
      split: sum.splits)

lemma assignStep_cases:
  assumes "assignStep val f r k = Inr (r', k')"
  shows "(name f = [] \<and> r' = r \<and> k' = k)
         \<or> (name f \<noteq> [] \<and> (\<exists>v. val f k = Inr (v, k') \<and> r' = r(name f \<mapsto> v)))"
  using assms by (auto simp: assignStep_def split: if_splits sum.splits)

lemma fieldNames_Cons:
  "fieldNames (f # fs) = (if name f = [] then fieldNames fs else insert (name f) (fieldNames fs))"
  by (simp add: fieldNames_def)

lemma forEach_assign_dom:
  "forEach (assignStep val) fs r k = Inr (r', k') \<Longrightarrow> dom r' = dom r \<union> fieldNames fs"
proof (induction fs arbitrary: r k)
  case Nil
  then show ?case by (simp add: fieldNames_def)
next
  case (Cons f fs)
  from Cons.prems obtain a j where st: "assignStep val f r k = Inr (a, j)"
    and rest: "forEach (assignStep val) fs a j = Inr (r', k')"
    by (auto split: sum.splits)
  from assignStep_cases[OF st] have "dom a = dom r \<union> (if name f = [] then {} else {name f})"
    by auto
  with Cons.IH[OF rest] show ?case by (auto simp: fieldNames_Cons)
qed

lemma forEach_assign_other:
  "forEach (assignStep val) fs r k = Inr (r', k') \<Longrightarrow> n \<notin> fieldNames fs \<Longrightarrow> r' n = r n"
proof (induction fs arbitrary: r k)
  case Nil
  then show ?case by simp
next
  case (Cons f fs)
  from Cons.prems(1) obtain a j where st: "assignStep val f r k = Inr (a, j)"
    and rest: "forEach (assignStep val) fs a j = Inr (r', k')"
    by (auto split: sum.splits)
  from Cons.prems(2) have n: "n \<notin> fieldNames fs" "name f = [] \<or> n \<noteq> name f"
    by (auto simp: fieldNames_Cons split: if_splits)
  from assignStep_cases[OF st] n(2) have "a n = r n" by auto
  with Cons.IH[OF rest n(1)] show ?case by simp
qed


lemma lookupFieldsOf_filter:
  "lookupFieldsOf fs = Inr lfs \<Longrightarrow>
     lfs = filter (\<lambda>f. dataType f = DLookup \<and> resolvedValues f \<noteq> []) fs
     \<and> (\<forall>f \<in> set fs. dataType f = DLookup \<longrightarrow> getLookupValues f = Inr (resolvedValues f))"
proof (induction fs arbitrary: lfs)
  case Nil
  then show ?case by simp
next
  case (Cons f fs)
  show ?case
  proof (cases "dataType f = DLookup")
    case False
    with Cons show ?thesis by simp
  next
    case True
    with Cons.prems obtain vs rest where g: "getLookupValues f = Inr vs"
      and r: "lookupFieldsOf fs = Inr rest" and l: "lfs = (if length vs > 0 then f # rest else rest)"
      by (auto split: sum.splits)
    from g have "resolvedValues f = vs" by (simp add: resolvedValues_def)
    with Cons.IH[OF r] g l True show ?thesis by auto
  qed
qed

lemma lookupLengths_map:
  "\<forall>f \<in> set lfs. getLookupValues f = Inr (resolvedValues f) \<Longrightarrow>
   lookupLengths lfs = Inr (map (\<lambda>f. int (length (resolvedValues f))) lfs)"
  by (induction lfs) auto

lemma fold_max_Max: "fold max xs (a::int) = Max (set (a # xs))"
  by (simp only: Max.set_eq_fold)

lemma mathMax_largestLookup:
  assumes "lfs = filter (\<lambda>f. dataType f = DLookup \<and> resolvedValues f \<noteq> []) fs" and "lfs \<noteq> []"
  shows "mathMax (map (\<lambda>f. int (length (resolvedValues f))) lfs) = largestLookup fs"
proof -
  define len where "len = (\<lambda>f. int (length (resolvedValues f)))"
  define A where "A = set (map len lfs)"
  define B where "B = set (0 # map len (filter (\<lambda>f. dataType f = DLookup) fs))"
  have ne: "A \<noteq> {}" using assms(2) by (simp add: A_def)
  have sub: "A \<subseteq> B" using assms(1) by (auto simp: A_def B_def)
  have fin: "finite A" "finite B" by (simp_all add: A_def B_def)
  have "mathMax (map len lfs) = Max A"
    using assms(2) by (cases lfs) (simp_all add: mathMax_def A_def fold_max_Max)
  moreover have "largestLookup fs = Max B"
    by (simp only: largestLookup_def B_def fold_max_Max len_def)
  moreover have "Max A = Max B"
  proof (rule antisym)
    show "Max A \<le> Max B" using sub ne fin(2) by (rule Max_mono)
    have "\<forall>b \<in> B. \<exists>a \<in> A. b \<le> a"
    proof
      fix b assume b: "b \<in> B"
      from ne obtain a0 where a0: "a0 \<in> A" by auto
      then have a0pos: "0 \<le> a0" by (auto simp: A_def len_def)
      show "\<exists>a \<in> A. b \<le> a"
      proof (cases "b \<in> A")
        case True then show ?thesis by auto
      next
        case False
        with b assms(1) have "b = 0" by (auto simp: A_def B_def len_def)
        with a0 a0pos show ?thesis by auto
      qed
    qed
    then show "Max B \<le> Max A" using fin ne
      by (metis Max_ge_iff Max_in B_def list.set_intros(1) empty_iff)
  qed
  ultimately show ?thesis by (simp add: len_def)
qed

subsection \<open>The structure of a run\<close>

lemma list_all2_upt:
  "list_all2 P [0 ..< n] rs \<Longrightarrow> length rs = n \<and> (\<forall>i < n. P i (rs ! i))"
  by (auto simp: list_all2_conv_all_nth)

lemma positiveRecords_standard:
  assumes "lookupFieldsOf fs = Inr []" and "positiveRecords p fs rc k = Inr (pos, k')"
  shows "length pos = nat rc
         \<and> (\<forall>i < length pos. \<exists>k1 k2. forEach (standardFieldStep p) fs positiveInit k1 = Inr (pos ! i, k2))"
proof -
  from assms have "forEach (\<lambda>i. pushRecord (forEach (standardFieldStep p) fs) positiveInit)
      [0 ..< nat rc] [] k = Inr (pos, k')"
    by (simp add: positiveRecords_def)
  from forEach_push[OF this] have "list_all2
      (\<lambda>i r. \<exists>k1 k2. forEach (standardFieldStep p) fs positiveInit k1 = Inr (r, k2)) [0 ..< nat rc] pos"
    by simp
  from list_all2_upt[OF this] show ?thesis by simp
qed

lemma positiveRecords_lookup:
  assumes "lookupFieldsOf fs = Inr lfs" and "lfs \<noteq> []"
    and "positiveRecords p fs rc k = Inr (pos, k')"
  shows "length pos = nat (min (largestLookup fs) rc)
         \<and> (\<forall>i < length pos. \<exists>k1 k2. forEach (lookupFieldStep p i) fs positiveInit k1 = Inr (pos ! i, k2))"
proof -
  from lookupFieldsOf_filter[OF assms(1)]
  have lfs: "lfs = filter (\<lambda>f. dataType f = DLookup \<and> resolvedValues f \<noteq> []) fs"
    and ok: "\<forall>f \<in> set fs. dataType f = DLookup \<longrightarrow> getLookupValues f = Inr (resolvedValues f)"
    by simp_all
  have "\<forall>f \<in> set lfs. getLookupValues f = Inr (resolvedValues f)" using lfs ok by auto
  from lookupLengths_map[OF this]
  have lens: "lookupLengths lfs = Inr (map (\<lambda>f. int (length (resolvedValues f))) lfs)" .
  have mx: "mathMax (map (\<lambda>f. int (length (resolvedValues f))) lfs) = largestLookup fs"
    using mathMax_largestLookup[OF lfs assms(2)] .
  from assms have "forEach (\<lambda>i. pushRecord (forEach (lookupFieldStep p i) fs) positiveInit)
      [0 ..< nat (min (largestLookup fs) rc)] [] k = Inr (pos, k')"
    by (simp add: positiveRecords_def lens mx Let_def)
  from forEach_push[OF this] have "list_all2
      (\<lambda>i r. \<exists>k1 k2. forEach (lookupFieldStep p i) fs positiveInit k1 = Inr (r, k2))
      [0 ..< nat (min (largestLookup fs) rc)] pos"
    by simp
  from list_all2_upt[OF this] show ?thesis by simp
qed

lemma positiveRecords_members:
  assumes "positiveRecords p fs rc k = Inr (pos, k')" and "r \<in> set pos"
  shows "positiveRecordOf p fs r"
proof -
  from assms(1) obtain lfs where l: "lookupFieldsOf fs = Inr lfs"
    by (auto simp: positiveRecords_def split: sum.splits)
  from assms(2) obtain i where i: "i < length pos" "r = pos ! i" by (auto simp: in_set_conv_nth)
  show ?thesis
  proof (cases "lfs = []")
    case True
    with positiveRecords_standard[OF _ assms(1)] l i show ?thesis
      by (auto simp: positiveRecordOf_def)
  next
    case False
    with positiveRecords_lookup[OF l False assms(1)] i show ?thesis
      by (auto simp: positiveRecordOf_def)
  qed
qed

lemma negativeRecords_structure:
  assumes "negativeRecords p fs data k = Inr (data', k')"
  shows "\<exists>negss. data' = data @ concat negss
           \<and> list_all2 (\<lambda>t negs. list_all2 (negativeRecordOf p fs t) (getNegativeTestTypes t) negs)
                (negativeTestFields fs) negss"
proof (rule forEach_concat[OF assms[unfolded negativeRecords_def]])
  fix t a j a' j'
  assume "forEach (\<lambda>testType. pushRecord (forEach (negativeFieldStep p t testType) fs)
             (negativeInit t testType)) (getNegativeTestTypes t) a j = Inr (a', j')"
  from forEach_push[OF this]
  show "\<exists>rs. a' = a @ rs \<and> list_all2 (negativeRecordOf p fs t) (getNegativeTestTypes t) rs"
    unfolding negativeRecordOf_def[abs_def] .
qed

lemma generateTestData_structure:
  assumes "generateTestData p fs rc inc = Inr data"
  shows "\<exists>pos negss k'. data = pos @ concat negss
           \<and> positiveRecords p fs rc 0 = Inr (pos, k')
           \<and> list_all2 (\<lambda>t negs. list_all2 (negativeRecordOf p fs t) (getNegativeTestTypes t) negs)
                (eligibleTargets inc fs) negss"
proof -
  from assms obtain pos k1 where pr: "positiveRecords p fs rc 0 = Inr (pos, k1)"
    by (auto simp: generateTestData_def split: sum.splits)
  show ?thesis
  proof (cases "shouldIncludeNegativeTests inc fs")
    case False
    with assms pr have "data = pos @ concat []" by (simp add: generateTestData_def)
    moreover have "list_all2 (\<lambda>t negs. list_all2 (negativeRecordOf p fs t) (getNegativeTestTypes t) negs)
                (eligibleTargets inc fs) []"
      using False by (simp add: eligibleTargets_def)
    ultimately show ?thesis using pr by blast
  next
    case True
    with assms pr obtain k2 where "negativeRecords p fs pos k1 = Inr (data, k2)"
      by (auto simp: generateTestData_def split: sum.splits)
    from negativeRecords_structure[OF this] True pr show ?thesis
      by (auto simp: eligibleTargets_def)
  qed
qed

lemma positiveRecordOf_props:
  assumes "positiveRecordOf p fs r"
  shows "dom r = {''_testType''} \<union> fieldNames fs"
    and "''_testType'' \<notin> fieldNames fs \<Longrightarrow> r ''_testType'' = Some (JStr ''positive'')"
    and "''_targetField'' \<notin> fieldNames fs \<Longrightarrow> r ''_targetField'' = None"
proof -
  from assms obtain val k1 k2 where fe: "forEach (assignStep val) fs positiveInit k1 = Inr (r, k2)"
    unfolding positiveRecordOf_def standardFieldStep_assign lookupFieldStep_assign by blast
  from forEach_assign_dom[OF fe] show "dom r = {''_testType''} \<union> fieldNames fs"
    by (simp add: positiveInit_def)
  show "r ''_testType'' = Some (JStr ''positive'')" if "''_testType'' \<notin> fieldNames fs"
    using forEach_assign_other[OF fe that] by (simp add: positiveInit_def)
  show "r ''_targetField'' = None" if "''_targetField'' \<notin> fieldNames fs"
    using forEach_assign_other[OF fe that] by (simp add: positiveInit_def)
qed

lemma negativeRecordOf_props:
  assumes "negativeRecordOf p fs t testType r"
  shows "dom r = reservedKeys \<union> fieldNames fs"
    and "''_testType'' \<notin> fieldNames fs \<Longrightarrow> r ''_testType'' = Some (JStr (''negative_'' @ testType))"
    and "''_targetField'' \<notin> fieldNames fs \<Longrightarrow> r ''_targetField'' = Some (JStr (name t))"
    and "''_autoSelected'' \<notin> fieldNames fs \<Longrightarrow>
           r ''_autoSelected'' = Some (JBool (shouldAutoEnableNegativeTests t))"
proof -
  from assms obtain k1 k2 where
    fe: "forEach (assignStep (negativeStepValue p t testType)) fs (negativeInit t testType) k1 = Inr (r, k2)"
    unfolding negativeRecordOf_def negativeFieldStep_assign by blast
  from forEach_assign_dom[OF fe] show "dom r = reservedKeys \<union> fieldNames fs"
    by (auto simp: negativeInit_def reservedKeys_def)
  show "r ''_testType'' = Some (JStr (''negative_'' @ testType))" if "''_testType'' \<notin> fieldNames fs"
    using forEach_assign_other[OF fe that] by (simp add: negativeInit_def)
  show "r ''_targetField'' = Some (JStr (name t))" if "''_targetField'' \<notin> fieldNames fs"
    using forEach_assign_other[OF fe that] by (simp add: negativeInit_def)
  show "r ''_autoSelected'' = Some (JBool (shouldAutoEnableNegativeTests t))"
    if "''_autoSelected'' \<notin> fieldNames fs"
    using forEach_assign_other[OF fe that] by (simp add: negativeInit_def)
qed





lemma list_all2_member:
  "list_all2 P xs ys \<Longrightarrow> y \<in> set ys \<Longrightarrow> \<exists>x \<in> set xs. P x y"
  by (induction rule: list_all2_induct) auto

lemma generateTestData_members:
  assumes "generateTestData p fs rc inc = Inr data" and "r \<in> set data"
  shows "positiveRecordOf p fs r
         \<or> (\<exists>t testType. t \<in> set (eligibleTargets inc fs) \<and> testType \<in> set (getNegativeTestTypes t)
               \<and> negativeRecordOf p fs t testType r)"
proof -
  from generateTestData_structure[OF assms(1)] obtain pos negss k' where
    d: "data = pos @ concat negss" and pr: "positiveRecords p fs rc 0 = Inr (pos, k')"
    and l: "list_all2 (\<lambda>t negs. list_all2 (negativeRecordOf p fs t) (getNegativeTestTypes t) negs)
                (eligibleTargets inc fs) negss" by blast
  from assms(2) d consider "r \<in> set pos" | negs where "negs \<in> set negss" "r \<in> set negs" by auto
  then show ?thesis
  proof cases
    case 1
    from positiveRecords_members[OF pr this] show ?thesis by simp
  next
    case 2
    from list_all2_member[OF l 2(1)] obtain t where t: "t \<in> set (eligibleTargets inc fs)"
      "list_all2 (negativeRecordOf p fs t) (getNegativeTestTypes t) negs"
      by blast
    from list_all2_member[OF t(2) 2(2)] obtain testType where
      "testType \<in> set (getNegativeTestTypes t)" "negativeRecordOf p fs t testType r"
      by blast
    with t(1) show ?thesis by blast
  qed
qed


lemma list_all2_map_eq:
  "list_all2 (\<lambda>x y. f y = g x) xs ys \<Longrightarrow> map f ys = map g xs"
  by (induction rule: list_all2_induct) auto


lemma negative_prefix_inj: "''negative_'' @ a = ''negative_'' @ b \<Longrightarrow> a = b"
  by simp

lemma positive_not_negative: "''positive'' \<noteq> ''negative_'' @ a"
  by simp






subsection \<open>When a run returns\<close>

lemma forEach_total:
  assumes "\<And>x r k. x \<in> set xs \<Longrightarrow> \<exists>r' k'. body x r k = Inr (r', k')"
  shows "\<exists>r' k'. forEach body xs r k = Inr (r', k')"
  using assms
proof (induction xs arbitrary: r k)
  case Nil
  then show ?case by simp
next
  case (Cons x xs)
  from Cons.prems[of x r k] obtain a j where b: "body x r k = Inr (a, j)" by auto
  have "\<exists>r' k'. forEach body xs a j = Inr (r', k')"
    by (rule Cons.IH) (simp add: Cons.prems)
  with b show ?case by simp
qed

lemma generateFieldValue_returns:
  assumes "resolvable f"
  shows "\<exists>v k'. generateFieldValue p f k = Inr (v, k')"
proof (cases "dataType f")
  case DLookup
  with assms obtain vs where "getLookupValues f = Inr vs"
    by (auto simp: resolvable_def split: sum.splits)
  with DLookup show ?thesis by (simp add: generateFieldValue_def)
qed (simp_all add: generateFieldValue_def split: prod.splits)


lemma assignStep_returns:
  assumes "\<And>k. \<exists>v k'. val f k = Inr (v, k')"
  shows "\<exists>r' k'. assignStep val f r k = Inr (r', k')"
proof -
  from assms[of k] obtain v k' where "val f k = Inr (v, k')" by blast
  then show ?thesis by (simp add: assignStep_def)
qed

lemma pushRecord_returns:
  assumes "\<And>r k. \<exists>r' k'. fill r k = Inr (r', k')"
  shows "\<exists>d' k'. pushRecord fill init' data k = Inr (d', k')"
proof -
  from assms[of init' k] obtain r' k' where "fill init' k = Inr (r', k')" by blast
  then show ?thesis by (simp add: pushRecord_def)
qed

lemma lookupFieldsOf_returns:
  "\<forall>f \<in> set fs. resolvable f \<Longrightarrow> \<exists>lfs. lookupFieldsOf fs = Inr lfs"
proof (induction fs)
  case Nil
  then show ?case by simp
next
  case (Cons f fs)
  then obtain rest where r: "lookupFieldsOf fs = Inr rest" by auto
  show ?case
  proof (cases "dataType f = DLookup")
    case True
    with Cons.prems obtain vs where "getLookupValues f = Inr vs"
      by (auto simp: resolvable_def split: sum.splits)
    with True r show ?thesis by simp
  next
    case False
    with r show ?thesis by simp
  qed
qed

lemma positiveRecords_returns:
  assumes "\<forall>f \<in> set fs. resolvable f"
  shows "\<exists>pos k'. positiveRecords p fs rc k = Inr (pos, k')"
proof -
  from lookupFieldsOf_returns[OF assms] obtain lfs where l: "lookupFieldsOf fs = Inr lfs" by blast
  from lookupFieldsOf_filter[OF l]
  have lfs: "lfs = filter (\<lambda>f. dataType f = DLookup \<and> resolvedValues f \<noteq> []) fs"
    and ok: "\<forall>f \<in> set fs. dataType f = DLookup \<longrightarrow> getLookupValues f = Inr (resolvedValues f)"
    by simp_all
  have "\<forall>f \<in> set lfs. getLookupValues f = Inr (resolvedValues f)" using lfs ok by auto
  from lookupLengths_map[OF this]
  have lens: "lookupLengths lfs = Inr (map (\<lambda>f. int (length (resolvedValues f))) lfs)" .
  have std: "\<exists>r' k'. forEach (standardFieldStep p) fs r j = Inr (r', k')" for r j
    unfolding standardFieldStep_assign
    by (rule forEach_total, rule assignStep_returns, rule generateFieldValue_returns)
       (simp add: assms)
  have lv: "\<exists>v k'. lookupStepValue p i f j = Inr (v, k')" if "f \<in> set fs" for i f j
  proof (cases "dataType f = DLookup")
    case True
    with ok that show ?thesis by (simp add: lookupStepValue_def)
  next
    case False
    with generateFieldValue_returns[of f p j] assms that show ?thesis
      by (simp add: lookupStepValue_def)
  qed
  have lk: "\<exists>r' k'. forEach (lookupFieldStep p i) fs r j = Inr (r', k')" for i r j
    unfolding lookupFieldStep_assign
    by (rule forEach_total, rule assignStep_returns, rule lv)
  show ?thesis
  proof (cases "lfs = []")
    case True
    have "\<exists>r' k'. forEach (\<lambda>i. pushRecord (forEach (standardFieldStep p) fs) positiveInit)
        [0 ..< nat rc] [] k = Inr (r', k')"
      by (rule forEach_total, rule pushRecord_returns, rule std)
    with True l show ?thesis by (simp add: positiveRecords_def)
  next
    case False
    have "\<exists>r' k'. forEach (\<lambda>i. pushRecord (forEach (lookupFieldStep p i) fs) positiveInit)
        xs [] k = Inr (r', k')" for xs
      by (rule forEach_total, rule pushRecord_returns, rule lk)
    with False l lens show ?thesis by (simp add: positiveRecords_def Let_def)
  qed
qed



subsection \<open>A sample run\<close>

lemma generateFieldValue_codeField: "generateFieldValue p codeField k = Inr (JStr ''ABCDE'', k)"
  by (simp add: generateFieldValue_def codeField_def plainField_def emptyConfig_def strOr_def
      applyFieldLength_def truthyNum_def substring0_def)

lemma generateFieldValue_flagField: "generateFieldValue p flagField k = Inr (JStr ''yes'', k)"
  by (simp add: generateFieldValue_def flagField_def plainField_def emptyConfig_def strOr_def
      applyFieldLength_def truthyNum_def)

lemma sampleFields_facts:
  "name unnamedField = []" "name codeField = ''code''" "name flagField = ''flag''"
  "dataType unnamedField = DStatic" "dataType codeField = DStatic" "dataType flagField = DStatic"
  "id_field codeField = ''id-code''" "id_field flagField = ''id-flag''"
  by (simp_all add: unnamedField_def codeField_def flagField_def plainField_def)

lemma getNegativeTestTypes_codeField: "getNegativeTestTypes codeField =
   [''empty'', ''null'', ''too_long'', ''special_chars'', ''sql_injection'', ''exceed_length'']"
  by (simp add: getNegativeTestTypes_def codeField_def plainField_def truthyNum_def)

lemma getNegativeTestTypes_flagField:
  "getNegativeTestTypes flagField = [''string_value'', ''number_value'']"
  by (simp add: getNegativeTestTypes_def flagField_def plainField_def)

lemma auto_sampleFields:
  "\<not> shouldAutoEnableNegativeTests unnamedField" "shouldAutoEnableNegativeTests codeField"
  "\<not> shouldAutoEnableNegativeTests flagField"
  by (simp_all add: shouldAutoEnableNegativeTests_def unnamedField_def codeField_def flagField_def
      plainField_def emptyConfig_def truthyNum_def)

lemma negativeTestFields_sampleFields:
  "negativeTestFields [unnamedField, codeField, flagField] = [codeField, flagField]"
  by (simp add: negativeTestFields_def auto_sampleFields sampleFields_facts)
    (simp add: flagField_def unnamedField_def plainField_def)

lemma positiveRecords_sampleFields: "positiveRecords p sampleFields 1 k =
   Inr ([[''_testType'' \<mapsto> JStr ''positive'', ''code'' \<mapsto> JStr ''ABCDE'', ''flag'' \<mapsto> JStr ''yes'']], k)"
  by (simp add: positiveRecords_def sampleFields_def sampleFields_facts pushRecord_def
      standardFieldStep_def assignFieldValue_def generateFieldValue_codeField
      generateFieldValue_flagField positiveInit_def)

lemma generateNegativeValue_codeField:
  "generateNegativeValue codeField ''empty'' = Inr (JStr [])"
  "generateNegativeValue codeField ''null'' = Inr JNull"
  "generateNegativeValue codeField ''too_long'' = Inr (JStr (replicate 1000 CHR ''A''))"
  "generateNegativeValue codeField ''special_chars'' = Inr (JStr specialChars)"
  "generateNegativeValue codeField ''sql_injection'' = Inr (JStr sqlInjection)"
  "generateNegativeValue codeField ''exceed_length'' = Inr (JStr (replicate 15 CHR ''A''))"
  by (simp_all add: generateNegativeValue_def repeatA_def codeField_def plainField_def numOr_def)

lemma generateNegativeValue_flagField:
  "generateNegativeValue flagField ''string_value'' = Inr (JStr ''not_a_number'')"
  "generateNegativeValue flagField ''number_value'' = Inr (JInt 123)"
  by (simp_all add: generateNegativeValue_def)

lemma negativeRecords_sampleFields:
  "negativeRecords p sampleFields data k = Inr (data @ tl sampleRun, k)"
  by (simp add: negativeRecords_def sampleFields_def negativeTestFields_sampleFields
      getNegativeTestTypes_codeField getNegativeTestTypes_flagField pushRecord_def
      negativeFieldStep_def sampleFields_facts generateNegativeValue_codeField
      generateNegativeValue_flagField assignFieldValue_def generateFieldValue_codeField
      generateFieldValue_flagField negativeInit_def auto_sampleFields sampleRun_def
      codeNegative_def flagNegative_def)

lemma generateTestData_sampleFields: "generateTestData p sampleFields 1 False = Inr sampleRun"
proof -
  have "shouldIncludeNegativeTests False sampleFields"
    by (simp add: shouldIncludeNegativeTests_def sampleFields_def auto_sampleFields)
  then show ?thesis
    by (simp add: generateTestData_def positiveRecords_sampleFields negativeRecords_sampleFields)
      (simp add: sampleRun_def)
qed

lemma fieldNames_sampleFields: "fieldNames sampleFields = {''code'', ''flag''}"
  by (auto simp: fieldNames_def sampleFields_def sampleFields_facts)


subsection \<open>The records of a run\<close>

text \<open>
  Claim C9. In every record that a generation run produces, positive or negative, the
  empty string is not a key: the keys are reserved metadata keys or names of named fields,
  so a field with an empty name contributes no key.
\<close>

theorem C9_no_empty_key:
  assumes "generateTestData p fs rc inc = Inr data" and "r \<in> set data"
  shows "[] \<notin> dom r \<and> dom r \<subseteq> reservedKeys \<union> {name f | f. f \<in> set fs \<and> name f \<noteq> []}"
proof -
  have fn: "fieldNames fs = {name f | f. f \<in> set fs \<and> name f \<noteq> []}"
    by (auto simp: fieldNames_def)
  from generateTestData_members[OF assms] have "dom r \<subseteq> reservedKeys \<union> fieldNames fs"
    using positiveRecordOf_props(1) negativeRecordOf_props(1)
    by (fastforce simp: reservedKeys_def)
  moreover have "[] \<notin> reservedKeys \<union> fieldNames fs"
    by (auto simp: reservedKeys_def fieldNames_def)
  ultimately show ?thesis unfolding fn by blast
qed

theorem C9_no_empty_key_witness:
  "generateTestData (constPlatform 0) sampleFields 1 False = Inr sampleRun
   \<and> [] \<notin> dom (hd sampleRun) \<and> [] \<notin> dom (last sampleRun)"
proof -
  have run: "generateTestData (constPlatform 0) sampleFields 1 False = Inr sampleRun"
    by (rule generateTestData_sampleFields)
  have "hd sampleRun \<in> set sampleRun" and "last sampleRun \<in> set sampleRun"
    by (simp_all add: sampleRun_def)
  from C9_no_empty_key [OF run this(1)] C9_no_empty_key [OF run this(2)] run
  show ?thesis by simp
qed

lemma subseq_getNegativeTestTypes: "subseq (getNegativeTestTypes t) (listedOrder (type t))"
  by (cases "type t") (auto simp: getNegativeTestTypes_def listedOrder_def)

text \<open>
  Claim C7. In the output of every generation run (of a configuration in which no field is
  named \<open>_testType\<close> or \<open>_targetField\<close>, so that the metadata can be read), the positive
  records come first, then the negative records: one group per eligible target field, the
  targets in the order of the configuration, and within a group one record per applicable
  kind in the order of \<open>getNegativeTestTypes\<close>, which is the order in which section 4.6
  lists the kinds (\<open>empty\<close>, \<open>null\<close> first, then the kinds of the type).
\<close>

theorem C7_output_order:
  assumes "generateTestData p fs rc inc = Inr data"
    and "''_testType'' \<notin> fieldNames fs" and "''_targetField'' \<notin> fieldNames fs"
  shows "(\<exists>n. map tagOf data =
           replicate n positiveTag
           @ concat (map (\<lambda>t. map (negativeTag t) (getNegativeTestTypes t)) (eligibleTargets inc fs)))
         \<and> subseq (eligibleTargets inc fs) fs
         \<and> (\<forall>t. subseq (getNegativeTestTypes t) (listedOrder (type t)))"
proof -
  from generateTestData_structure[OF assms(1)] obtain pos negss k' where
    d: "data = pos @ concat negss" and pr: "positiveRecords p fs rc 0 = Inr (pos, k')"
    and l: "list_all2 (\<lambda>t negs. list_all2 (negativeRecordOf p fs t) (getNegativeTestTypes t) negs)
                (eligibleTargets inc fs) negss" by blast
  have "tagOf r = positiveTag" if "r \<in> set pos" for r
    using positiveRecordOf_props(2,3)[OF positiveRecords_members[OF pr that]] assms(2,3)
    by (simp add: tagOf_def positiveTag_def)
  then have a: "map tagOf pos = replicate (length pos) positiveTag"
    by (simp add: map_replicate_const[symmetric] cong: map_cong)
  have "list_all2 (\<lambda>t negs. map tagOf negs = map (negativeTag t) (getNegativeTestTypes t))
          (eligibleTargets inc fs) negss"
  proof (rule list_all2_mono[OF l])
    fix t negs
    assume "list_all2 (negativeRecordOf p fs t) (getNegativeTestTypes t) negs"
    then have "list_all2 (\<lambda>testType r. tagOf r = negativeTag t testType)
                 (getNegativeTestTypes t) negs"
    proof (rule list_all2_mono)
      fix testType r
      assume "negativeRecordOf p fs t testType r"
      from negativeRecordOf_props(2,3)[OF this] assms(2,3)
      show "tagOf r = negativeTag t testType" by (simp add: tagOf_def negativeTag_def)
    qed
    from list_all2_map_eq[OF this]
    show "map tagOf negs = map (negativeTag t) (getNegativeTestTypes t)" .
  qed
  from list_all2_map_eq[OF this]
  have "map (map tagOf) negss
          = map (\<lambda>t. map (negativeTag t) (getNegativeTestTypes t)) (eligibleTargets inc fs)" .
  then have b: "map tagOf (concat negss)
          = concat (map (\<lambda>t. map (negativeTag t) (getNegativeTestTypes t)) (eligibleTargets inc fs))"
    by (simp add: map_concat)
  have "\<exists>n. map tagOf data =
           replicate n positiveTag
           @ concat (map (\<lambda>t. map (negativeTag t) (getNegativeTestTypes t)) (eligibleTargets inc fs))"
    using a b d by auto
  moreover have "subseq (eligibleTargets inc fs) fs"
    by (simp add: eligibleTargets_def negativeTestFields_def)
  ultimately show ?thesis using subseq_getNegativeTestTypes by blast
qed

theorem C7_output_order_witness:
  "\<exists>n. map tagOf sampleRun =
      replicate n positiveTag
      @ map (negativeTag codeField)
          [''empty'', ''null'', ''too_long'', ''special_chars'', ''sql_injection'', ''exceed_length'']
      @ map (negativeTag flagField) [''string_value'', ''number_value'']"
proof -
  have run: "generateTestData (constPlatform 0) sampleFields 1 False = Inr sampleRun"
    by (rule generateTestData_sampleFields)
  have a: "''_testType'' \<notin> fieldNames sampleFields" and b: "''_targetField'' \<notin> fieldNames sampleFields"
    by (simp_all add: fieldNames_sampleFields)
  have e: "eligibleTargets False sampleFields = [codeField, flagField]"
    by (simp add: eligibleTargets_def shouldIncludeNegativeTests_def sampleFields_def
        auto_sampleFields negativeTestFields_sampleFields)
  from C7_output_order [OF run a b] show ?thesis
    by (simp add: e getNegativeTestTypes_codeField getNegativeTestTypes_flagField)
qed






subsection \<open>A single required string field\<close>

lemma randomBelow_zero: "randomBelow (constPlatform 0) k n = 0"
  by (simp add: randomBelow_def constPlatform_def)

lemma randomChars_zero3: "randomChars (constPlatform 0) 3 k = (''AAA'', k + 3)"
  by (simp add: numeral_3_eq_3 randomBelow_zero charAt_def alphanumerics_def
      upperChars_def lowerChars_def digitChars_def)

lemma requiredMinmaxField_facts:
  "name (requiredMinmaxField n limit) = n" "dataType (requiredMinmaxField n limit) = DMinmax"
  "required (requiredMinmaxField n limit)" "type (requiredMinmaxField n limit) = TString"
  "maxFieldLength (requiredMinmaxField n limit) = limit"
  "generateNegativeTests (requiredMinmaxField n limit) = None"
  "minLength (config (requiredMinmaxField n limit)) = Some 3"
  "maxLength (config (requiredMinmaxField n limit)) = Some 3"
  by (simp_all add: requiredMinmaxField_def plainField_def emptyConfig_def)

text \<open>
  Claim C3, as the code has it. For a configuration of a single field with a non-empty
  name that is no reserved metadata key, type \<open>string\<close>, required, strategy \<open>minmax\<close> with
  the lengths 3..3, no \<open>maxFieldLength\<close> and \<open>generateNegativeTests\<close> unset, a run returns
  its positive records followed by exactly five negative records, of the kinds \<open>empty\<close>,
  \<open>null\<close>, \<open>too_long\<close>, \<open>special_chars\<close>, \<open>sql_injection\<close>, each with \<open>_autoSelected = true\<close>
  and the field as its target.
\<close>

theorem C3_required_field_auto_negative:
  assumes "type field = TString" and "required field" and "dataType field = DMinmax"
    and "minLength (config field) = Some 3" and "maxLength (config field) = Some 3"
    and "generateNegativeTests field = None" and "maxFieldLength field = None"
    and "name field \<noteq> []" and "name field \<notin> reservedKeys"
  shows "\<exists>pos negs. generateTestData p [field] rc inc = Inr (pos @ negs)
           \<and> length pos = nat rc
           \<and> list_all positiveRecord pos
           \<and> map testTypeOf negs =
                [Some (JStr ''negative_empty''), Some (JStr ''negative_null''),
                 Some (JStr ''negative_too_long''), Some (JStr ''negative_special_chars''),
                 Some (JStr ''negative_sql_injection'')]
           \<and> map autoSelectedOf negs = replicate 5 (Some (JBool True))
           \<and> map targetFieldOf negs = replicate 5 (Some (JStr (name field)))"
proof -
  have res: "\<forall>f \<in> set [field]. resolvable f"
    using assms(3) by (simp add: resolvable_def split: sum.splits)
  from positiveRecords_returns[OF res] obtain pos k' where
    pr: "positiveRecords p [field] rc 0 = Inr (pos, k')" by blast
  have lf: "lookupFieldsOf [field] = Inr []" using assms(3) by simp
  from positiveRecords_standard[OF lf pr] have len: "length pos = nat rc" by simp
  have fn: "fieldNames [field] = {name field}" using assms(8) by (simp add: fieldNames_def)
  have tt: "''_testType'' \<notin> fieldNames [field]"
    using assms(9) by (auto simp: fn reservedKeys_def)
  have "positiveRecord r" if "r \<in> set pos" for r
    using positiveRecordOf_props(2)[OF positiveRecords_members[OF pr that] tt]
    by (simp add: positiveRecord_def)
  then have allpos: "list_all positiveRecord pos" by (simp add: list_all_iff)
  have kinds: "getNegativeTestTypes field =
     [''empty'', ''null'', ''too_long'', ''special_chars'', ''sql_injection'']"
    using assms(1,2,7) by (simp add: getNegativeTestTypes_def truthyNum_def)
  have auto: "shouldAutoEnableNegativeTests field"
    using assms(2) by (simp add: shouldAutoEnableNegativeTests_def)
  have ntf: "negativeTestFields [field] = [field]"
    using auto assms(8) by (simp add: negativeTestFields_def)
  have inc: "shouldIncludeNegativeTests inc [field]"
    using auto by (simp add: shouldIncludeNegativeTests_def)
  define rec where "rec = (\<lambda>testType v. (negativeInit field testType)(name field \<mapsto> v))"
  define negs where "negs =
     [rec ''empty'' (JStr []), rec ''null'' JNull,
      rec ''too_long'' (JStr (replicate 1000 CHR ''A'')),
      rec ''special_chars'' (JStr specialChars), rec ''sql_injection'' (JStr sqlInjection)]"
  have nr: "negativeRecords p [field] pos k' = Inr (pos @ negs, k')"
    using assms(8)
    by (simp add: negativeRecords_def ntf kinds pushRecord_def negativeFieldStep_def
        generateNegativeValue_def repeatA_def negs_def rec_def)
  have g: "generateTestData p [field] rc inc = Inr (pos @ negs)"
    by (simp add: generateTestData_def pr inc nr)
  have nk: "name field \<noteq> ''_testType''" "name field \<noteq> ''_targetField''"
    "name field \<noteq> ''_autoSelected''"
    using assms(9) by (auto simp: reservedKeys_def)
  have t1: "map testTypeOf negs =
                [Some (JStr ''negative_empty''), Some (JStr ''negative_null''),
                 Some (JStr ''negative_too_long''), Some (JStr ''negative_special_chars''),
                 Some (JStr ''negative_sql_injection'')]"
    using nk by (simp add: negs_def rec_def testTypeOf_def negativeInit_def)
  have t2: "map autoSelectedOf negs = replicate 5 (Some (JBool True))"
    using nk auto
    by (simp add: negs_def rec_def autoSelectedOf_def negativeInit_def numeral_eq_Suc)
  have t3: "map targetFieldOf negs = replicate 5 (Some (JStr (name field)))"
    using nk by (simp add: negs_def rec_def targetFieldOf_def negativeInit_def numeral_eq_Suc)
  show ?thesis by (intro exI[of _ pos] exI[of _ negs] conjI g len allpos t1 t2 t3)
qed

theorem C3_required_field_auto_negative_witness:
  "\<exists>pos negs. generateTestData (constPlatform 0) [requiredMinmaxField ''code'' None] 2 False
                 = Inr (pos @ negs)
     \<and> length pos = 2
     \<and> map testTypeOf negs =
          [Some (JStr ''negative_empty''), Some (JStr ''negative_null''),
           Some (JStr ''negative_too_long''), Some (JStr ''negative_special_chars''),
           Some (JStr ''negative_sql_injection'')]
     \<and> map autoSelectedOf negs = replicate 5 (Some (JBool True))"
proof -
  have "''code'' \<noteq> []" and "''code'' \<notin> reservedKeys" by (simp_all add: reservedKeys_def)
  then have "name (requiredMinmaxField ''code'' None) \<noteq> []"
    and "name (requiredMinmaxField ''code'' None) \<notin> reservedKeys"
    by (simp_all add: requiredMinmaxField_facts)
  from C3_required_field_auto_negative [OF requiredMinmaxField_facts(4,3,2,7,8,6,5) this,
      of "constPlatform 0" 2 False]
  obtain pos negs where
    w: "generateTestData (constPlatform 0) [requiredMinmaxField ''code'' None] 2 False
       = Inr (pos @ negs)"
    "length pos = 2"
    "map testTypeOf negs =
          [Some (JStr ''negative_empty''), Some (JStr ''negative_null''),
           Some (JStr ''negative_too_long''), Some (JStr ''negative_special_chars''),
           Some (JStr ''negative_sql_injection'')]"
    "map autoSelectedOf negs = replicate 5 (Some (JBool True))"
    by auto
  show ?thesis by (intro exI[of _ pos] exI[of _ negs] conjI w)
qed

text \<open>
  Claim C3 as stated fails on single fields that fit its description. With
  \<open>maxFieldLength = 5\<close> the kinds are six, \<open>exceed_length\<close> among them; with an empty name
  no negative record is emitted at all.
\<close>

theorem C3_extra_kind_counterexample:
  "testTypesOf (generateTestData (constPlatform 0) [requiredMinmaxField ''code'' (Some 5)] 1 False)
     = Inr [Some (JStr ''positive''), Some (JStr ''negative_empty''), Some (JStr ''negative_null''),
        Some (JStr ''negative_too_long''), Some (JStr ''negative_special_chars''),
        Some (JStr ''negative_sql_injection''), Some (JStr ''negative_exceed_length'')]
   \<and> testTypesOf (generateTestData (constPlatform 0) [requiredMinmaxField [] None] 1 False)
     = Inr [Some (JStr ''positive'')]"
proof -
  let ?f = "requiredMinmaxField ''code'' (Some 5)"
  let ?u = "requiredMinmaxField [] None"
  note n = requiredMinmaxField_facts
  have gfv: "generateFieldValue (constPlatform 0) ?f k = Inr (JStr ''AAA'', k + 4)" for k
    by (simp add: generateFieldValue_def n minmaxValue_def numOr_def generateRandomString_def
        randomBelow_zero randomChars_zero3 applyFieldLength_def truthyNum_def substring0_def)
  have pos: "positiveRecords (constPlatform 0) [?f] 1 0 =
     Inr ([[''_testType'' \<mapsto> JStr ''positive'', ''code'' \<mapsto> JStr ''AAA'']], 4)"
    by (simp add: positiveRecords_def n pushRecord_def standardFieldStep_def
        assignFieldValue_def gfv positiveInit_def)
  have kinds: "getNegativeTestTypes ?f =
     [''empty'', ''null'', ''too_long'', ''special_chars'', ''sql_injection'', ''exceed_length'']"
    by (simp add: getNegativeTestTypes_def n truthyNum_def)
  have ntf: "negativeTestFields [?f] = [?f]"
    by (simp add: negativeTestFields_def shouldAutoEnableNegativeTests_def n)
  have inc: "shouldIncludeNegativeTests False [?f]"
    by (simp add: shouldIncludeNegativeTests_def shouldAutoEnableNegativeTests_def n)
  have a: "testTypesOf (generateTestData (constPlatform 0) [?f] 1 False)
     = Inr [Some (JStr ''positive''), Some (JStr ''negative_empty''), Some (JStr ''negative_null''),
        Some (JStr ''negative_too_long''), Some (JStr ''negative_special_chars''),
        Some (JStr ''negative_sql_injection''), Some (JStr ''negative_exceed_length'')]"
    by (simp add: testTypesOf_def generateTestData_def pos inc negativeRecords_def ntf kinds
        pushRecord_def negativeFieldStep_def n negativeInit_def testTypeOf_def
        generateNegativeValue_def repeatA_def numOr_def)
  have posu: "positiveRecords (constPlatform 0) [?u] 1 0 =
     Inr ([[''_testType'' \<mapsto> JStr ''positive'']], 0)"
    by (simp add: positiveRecords_def n pushRecord_def standardFieldStep_def positiveInit_def)
  have ntfu: "negativeTestFields [?u] = []"
    by (simp add: negativeTestFields_def n)
  have b: "testTypesOf (generateTestData (constPlatform 0) [?u] 1 False)
     = Inr [Some (JStr ''positive'')]"
    by (simp add: testTypesOf_def generateTestData_def posu negativeRecords_def ntfu
        testTypeOf_def)
  show ?thesis using a b by simp
qed

subsection \<open>Lookup-driven positive records\<close>














subsection \<open>Rounding to doubles\<close>




subsection \<open>The negative records of one target field\<close>






subsection \<open>The negative test cases of a number field\<close>





end
